theory Spec2Isabelle
  imports Main "HOL-Library.Sublist"
begin

section \<open>Pods, configuration and the host filesystem\<close>

text \<open>
  The fields of \<^verbatim>\<open>v1.Pod\<close> that \<^verbatim>\<open>podtailer.go\<close> reads. \<^verbatim>\<open>types.UID\<close> is a Go
  string type, so \<^verbatim>\<open>%s\<close> prints it unchanged; strings are byte lists.
\<close>

record Pod =
  Name :: string
  Namespace :: string
  UID :: string
  Annotations :: "string \<rightharpoonup> string"

text \<open>
  The fields of \<^verbatim>\<open>config.WatcherConfig\<close> that \<^verbatim>\<open>podtailer.go\<close> reads.
  \<^verbatim>\<open>LabelSelector\<close> is a \<^verbatim>\<open>*string\<close>: \<open>None\<close> is the nil pointer.
\<close>

record WatcherConfig =
  LabelSelector :: "string option"
  cfg_Namespace :: string
  ContainerName :: string

record PodSetTailer =
  config :: WatcherConfig
  nodeSelector :: string
  legacyLogPaths :: bool

text \<open>
  The outcome of one \<^verbatim>\<open>os.Stat\<close> call: the error is nil, it is a not-exist error, or
  it is any other error (permission denied, I/O error, ...). The code only tests
  \<^verbatim>\<open>err == nil\<close>; it never looks at the returned file info.
\<close>

datatype stat_result = StatOk | StatNotExist | StatFailed

datatype error = PathNotFound string | FactoryError string

datatype level = InfoLevel | WarnLevel | ErrorLevel

text \<open>
  What the code does to the outside world, in the order it does it: filesystem probes,
  log lines, calls into the collaborating packages, and the wait-group signal of \<^verbatim>\<open>run\<close>.
  Watchers are heap objects; a watcher is named by its address, a natural number.
\<close>

datatype effect =
    OsStat string
  | Log level string
  | NewPodWatcher string string string
  | NewLineHandlerFactory string
  | NewPathWatcher nat string
  | WatcherStart nat
  | WatcherStop nat
  | StopReceived
  | WgDone
  | StopReturned

definition config_hash :: string where
  "config_hash = ''kubernetes.io/config.hash''"

text \<open>Lines 142-146 of \<^verbatim>\<open>determineLogPattern\<close>: the probe of the directory keyed by the UID.\<close>

definition uidLogPattern ::
  "Pod \<Rightarrow> (string \<Rightarrow> stat_result) \<Rightarrow> (string \<times> error option) \<times> effect list" where
  "uidLogPattern pod os_Stat =
     (let upath = ''/var/log/pods/'' @ UID pod in
      if os_Stat upath = StatOk then ((upath @ ''/*'', None), [OsStat upath])
      else (([], Some (PathNotFound (UID pod))), [OsStat upath]))"

text \<open>
  \<^verbatim>\<open>determineLogPattern\<close>: the Go pair \<^verbatim>\<open>(string, error)\<close> is kept as a pair, because
  the caller goes on to use the string after an error. The second component lists the
  probes and log lines of the call.
\<close>

definition determineLogPattern ::
  "Pod \<Rightarrow> bool \<Rightarrow> (string \<Rightarrow> stat_result) \<Rightarrow> (string \<times> error option) \<times> effect list" where
  "determineLogPattern pod legacy os_Stat =
     (if legacy then
        ((''/var/log/containers/'' @ Name pod @ ''_'' @ Namespace pod @ ''_*.log'', None), [])
      else
        (case Annotations pod config_hash of
           Some hash \<Rightarrow>
             (let hpath = ''/var/log/pods/'' @ hash in
              if os_Stat hpath = StatOk then
                ((hpath @ ''/*'', None),
                 [OsStat hpath,
                  Log InfoLevel ''Critical pod detected, using config.hash for log dir''])
              else
                (let (r, effs) = uidLogPattern pod os_Stat in (r, OsStat hpath # effs)))
         | None \<Rightarrow> uidLogPattern pod os_Stat))"

text \<open>
  Lines 59-65 of \<^verbatim>\<open>run\<close>: the label selector handed to \<^verbatim>\<open>k8sagent.NewPodWatcher\<close>.
  Dereferencing a nil \<^verbatim>\<open>LabelSelector\<close> panics: the result is \<open>None\<close>.
\<close>

definition run_labelSelector :: "PodSetTailer \<Rightarrow> string option" where
  "run_labelSelector pt =
     (case LabelSelector (config pt) of
        None \<Rightarrow> None
      | Some labelSelector \<Rightarrow>
          Some (if labelSelector = [] then ''k8s-app!=honeycomb-agent''
                else labelSelector @ '',k8s-app!=honeycomb-agent''))"

text \<open>Lines 57-73 of \<^verbatim>\<open>run\<close>, up to the loop: the Pod Event Source is built once.\<close>

definition run_prologue :: "PodSetTailer \<Rightarrow> effect list option" where
  "run_prologue pt =
     (case run_labelSelector pt of
        None \<Rightarrow> None
      | Some labelSelector \<Rightarrow>
          Some [NewPodWatcher (cfg_Namespace (config pt)) labelSelector (nodeSelector pt)])"

text \<open>A probe that failed, read as a probe that found nothing.\<close>

definition absent_on_error :: "(string \<Rightarrow> stat_result) \<Rightarrow> string \<Rightarrow> stat_result" where
  "absent_on_error os_Stat path = (if os_Stat path = StatFailed then StatNotExist else os_Stat path)"

section \<open>Go's \<^verbatim>\<open>regexp\<close> package, as far as \<^verbatim>\<open>determineFilterFunc\<close> needs it\<close>

text \<open>
  \<^verbatim>\<open>determineFilterFunc\<close> builds its patterns by \<^verbatim>\<open>fmt.Sprintf\<close> and matches them with
  \<^verbatim>\<open>regexp.Match\<close>, so pod names, UIDs and annotation values become regular-expression
  source, byte for byte. The model covers these parts of Go's syntax: a literal rune of
  one to four bytes, \<^verbatim>\<open>.\<close>, \<^verbatim>\<open>^\<close>, a backslash before an ASCII byte that is no letter and
  no digit, a class of one range such as \<^verbatim>\<open>[0-9]\<close>, and \<^verbatim>\<open>*\<close>, \<^verbatim>\<open>+\<close>, \<^verbatim>\<open>?\<close> (greedy or
  not) after a one-rune atom. It also covers the patterns \<^verbatim>\<open>regexp.Compile\<close> refuses for
  one of these reasons: a byte sequence that is not UTF-8, a backslash at the end or
  before a byte beyond ASCII, a repetition operator with nothing to repeat or after
  another one, a \<^verbatim>\<open>)\<close> that closes nothing, a \<^verbatim>\<open>(\<close> or a \<^verbatim>\<open>[\<close> that nothing closes. Every
  pattern the two templates produce from names without \<^verbatim>\<open>( ) [ ] { } | $ ^\<close> and
  backslash is covered, whatever the container name in the template that quotes it.
  The limit newer Go releases put on the size of a compiled pattern (millions of
  runes) is left out.
\<close>

definition ascii :: "char \<Rightarrow> bool" where
  "ascii c = ((of_char c :: nat) < 0x80)"

definition isalnum :: "char \<Rightarrow> bool" where
  "isalnum c = (let x = (of_char c :: nat) in
      (0x30 \<le> x \<and> x \<le> 0x39) \<or> (0x41 \<le> x \<and> x \<le> 0x5A) \<or> (0x61 \<le> x \<and> x \<le> 0x7A))"

definition isdigit :: "char \<Rightarrow> bool" where
  "isdigit c = (0x30 \<le> (of_char c :: nat) \<and> (of_char c :: nat) \<le> 0x39)"

text \<open>The bytes \<^verbatim>\<open>regexp.QuoteMeta\<close> escapes: backslash and \<^verbatim>\<open>.+*?()|[]{}^$\<close>.\<close>

definition special :: "char \<Rightarrow> bool" where
  "special b = (b \<in> set (CHR 0x5C # ''.+*?()|[]{}^$''))"

fun QuoteMeta :: "string \<Rightarrow> string" where
  "QuoteMeta [] = []"
| "QuoteMeta (b # s) = (if special b then CHR 0x5C # b # QuoteMeta s else b # QuoteMeta s)"

definition between :: "nat \<Rightarrow> nat \<Rightarrow> char \<Rightarrow> bool" where
  "between lo hi b = (lo \<le> of_char b \<and> of_char b \<le> hi)"

text \<open>
  Parser and matcher read runes with \<^verbatim>\<open>utf8.DecodeRune\<close>: a well-formed sequence of
  two to four bytes is one rune of that width, and any other byte is a rune of width 1.
  A byte beyond ASCII of width 1 is not UTF-8; it decodes to U+FFFD, the replacement
  character, whose own encoding has three bytes.
\<close>

fun rune_size :: "string \<Rightarrow> nat" where
  "rune_size [] = 0"
| "rune_size (p0 # p) =
     (let x = (of_char p0 :: nat) in
      if 0xC2 \<le> x \<and> x \<le> 0xDF then
        (case p of
           b1 # _ \<Rightarrow> if between 0x80 0xBF b1 then 2 else 1
         | _ \<Rightarrow> 1)
      else if 0xE0 \<le> x \<and> x \<le> 0xEF then
        (case p of
           b1 # b2 # _ \<Rightarrow>
             if between (if x = 0xE0 then 0xA0 else 0x80) (if x = 0xED then 0x9F else 0xBF) b1
                \<and> between 0x80 0xBF b2
             then 3 else 1
         | _ \<Rightarrow> 1)
      else if 0xF0 \<le> x \<and> x \<le> 0xF4 then
        (case p of
           b1 # b2 # b3 # _ \<Rightarrow>
             if between (if x = 0xF0 then 0x90 else 0x80) (if x = 0xF4 then 0x8F else 0xBF) b1
                \<and> between 0x80 0xBF b2 \<and> between 0x80 0xBF b3
             then 4 else 1
         | _ \<Rightarrow> 1)
      else 1)"

definition replacement :: string where
  "replacement = [CHR 0xEF, CHR 0xBF, CHR 0xBD]"

text \<open>
  A parsed pattern is a sequence of items. An atom matches one rune; a literal is kept
  as the bytes of its rune. \<open>BeginText\<close> is \<^verbatim>\<open>^\<close>, which matches the empty string at
  offset 0 only.
\<close>

datatype atom = Lit string | AnyCharNotNL | ClassRange char char

datatype item = BeginText | One atom | Star atom | Plus atom | Quest atom

text \<open>
  The number of bytes an atom consumes at the head of the input; 0 when it does not
  match. The matcher compares decoded runes: a literal matches the input that begins
  with its bytes, and the literal U+FFFD matches, besides its own three bytes, one byte
  that is not UTF-8.
\<close>

fun accepts :: "atom \<Rightarrow> string \<Rightarrow> nat" where
  "accepts a [] = 0"
| "accepts (Lit r) (x # s) =
     (if r \<noteq> [] \<and> prefix r (x # s) then length r
      else if r = replacement \<and> \<not> ascii x \<and> rune_size (x # s) = 1 then 1
      else 0)"
| "accepts AnyCharNotNL (x # s) = (if x = CHR 0x0A then 0 else rune_size (x # s))"
| "accepts (ClassRange lo hi) (x # s) =
     (if (of_char lo :: nat) \<le> of_char x \<and> (of_char x :: nat) \<le> of_char hi then 1 else 0)"

lemma rune_size_pos: "0 < rune_size (x # s)"
  by (simp add: Let_def split: list.splits)

lemma rune_size_drop: "length (drop (rune_size (x # s)) (x # s)) < length (x # s)"
  using rune_size_pos [of x s] by (simp del: rune_size.simps)

lemma accepts_consumes: "0 < accepts a s \<Longrightarrow> length s - accepts a s < length s"
  by (cases s) (auto simp del: rune_size.simps)

text \<open>
  \<open>match_here r b s\<close>: the items \<open>r\<close> match a prefix of \<open>s\<close>; \<open>b\<close> says that \<open>s\<close> begins
  at offset 0 of the input.
\<close>

function match_here :: "item list \<Rightarrow> bool \<Rightarrow> string \<Rightarrow> bool" where
  "match_here [] b s = True"
| "match_here (BeginText # r) b s = (if b then match_here r b s else False)"
| "match_here (One a # r) b s =
     (let n = accepts a s in if 0 < n then match_here r False (drop n s) else False)"
| "match_here (Star a # r) b s =
     (if match_here r b s then True
      else (let n = accepts a s in if 0 < n then match_here (Star a # r) False (drop n s) else False))"
| "match_here (Plus a # r) b s =
     (let n = accepts a s in if 0 < n then match_here (Star a # r) False (drop n s) else False)"
| "match_here (Quest a # r) b s =
     (if match_here r b s then True
      else (let n = accepts a s in if 0 < n then match_here r False (drop n s) else False))"
  by pat_completeness auto
termination
  by (relation "inv_image (less_than <*lex*> less_than) (\<lambda>(r, b, s). (length s, length r))")
     (auto intro: accepts_consumes)

text \<open>An unanchored match: the items match at some rune boundary of the input.\<close>

function search :: "item list \<Rightarrow> bool \<Rightarrow> string \<Rightarrow> bool" where
  "search r b [] = match_here r b []"
| "search r b (x # s) =
     (if match_here r b (x # s) then True else search r False (drop (rune_size (x # s)) (x # s)))"
  by pat_completeness auto
termination
  by (relation "measure (\<lambda>(r, b, s). length s)")
     (use rune_size_drop in \<open>auto simp del: rune_size.simps\<close>)

text \<open>
  What the model says of a pattern or of a part of it: it is parsed; or
  \<^verbatim>\<open>regexp.Compile\<close> returns an error; or it uses a construct the model leaves out.
\<close>

datatype 'a parsed = Parsed 'a | SyntaxError | Unmodelled

definition rep_op :: "char \<Rightarrow> bool" where
  "rep_op c = (c = CHR ''*'' \<or> c = CHR ''+'' \<or> c = CHR ''?'')"

text \<open>
  The repetition operator after an atom, if there is one. A \<^verbatim>\<open>?\<close> right after the
  operator makes it non-greedy, which changes which match is found and not whether
  there is one. A second operator is the error "invalid nested repetition operator".
\<close>

definition repetition :: "atom \<Rightarrow> string \<Rightarrow> (item \<times> string) parsed" where
  "repetition a t =
     (case t of
        [] \<Rightarrow> Parsed (One a, [])
      | c # t' \<Rightarrow>
          if rep_op c then
            (let after = (case t' of q # u \<Rightarrow> if q = CHR ''?'' then u else t' | [] \<Rightarrow> [])
             in if after \<noteq> [] \<and> rep_op (hd after) then SyntaxError
                else Parsed (if c = CHR ''*'' then Star a else if c = CHR ''+'' then Plus a else Quest a,
                             after))
          else Parsed (One a, t))"

text \<open>
  A group or a class that begins here and that no later byte closes is an error
  (missing closing \<^verbatim>\<open>)\<close> or \<^verbatim>\<open>]\<close>); one that may be closed is left out of the model.
\<close>

definition unclosed :: "char \<Rightarrow> string \<Rightarrow> (item \<times> string) parsed" where
  "unclosed close t = (if close \<in> set t then Unmodelled else SyntaxError)"

text \<open>
  The first item of a pattern and the rest of the pattern. \<open>anchored\<close> says that the
  pattern begins with \<^verbatim>\<open>^\<close>: then the compiled program has no literal prefix and every
  literal is compared with a decoded rune of the input. Without \<^verbatim>\<open>^\<close> Go first searches
  the literal prefix of the pattern bytewise, where U+FFFD matches its own three bytes
  only; a literal U+FFFD in such a pattern is left out of the model. Also left out:
  groups and classes that may be closed (but for a class of one range), alternation,
  \<^verbatim>\<open>$\<close>, counted repetition, a backslash before a letter or a digit, and a repetition
  of \<^verbatim>\<open>^\<close>. The bytes \<^verbatim>\<open>]\<close> and \<^verbatim>\<open>}\<close>, and \<^verbatim>\<open>{\<close> before anything but a digit, are literals.
  \<open>parse_items\<close> never asks for the first item of the empty pattern.
\<close>

fun next_item :: "bool \<Rightarrow> string \<Rightarrow> (item \<times> string) parsed" where
  "next_item anchored [] = Unmodelled"
| "next_item anchored (c # t) =
     (if c = CHR 0x5C then
        (case t of
           [] \<Rightarrow> SyntaxError
         | d # t' \<Rightarrow>
             if \<not> ascii d then SyntaxError
             else if isalnum d then Unmodelled
             else repetition (Lit [d]) t')
      else if c = CHR ''.'' then repetition AnyCharNotNL t
      else if c = CHR ''['' then
        (case t of
           lo # m # hi # cl # t' \<Rightarrow>
             if isalnum lo \<and> m = CHR ''-'' \<and> isalnum hi \<and> (of_char lo :: nat) \<le> of_char hi
                \<and> cl = CHR '']''
             then repetition (ClassRange lo hi) t' else unclosed CHR '']'' t
         | _ \<Rightarrow> unclosed CHR '']'' t)
      else if c = CHR ''^'' then
        (if t \<noteq> [] \<and> (rep_op (hd t) \<or> hd t = CHR ''{'') then Unmodelled else Parsed (BeginText, t))
      else if rep_op c then SyntaxError
      else if c = CHR '')'' then SyntaxError
      else if c = CHR ''('' then unclosed CHR '')'' t
      else if c = CHR ''|'' \<or> c = CHR ''$'' then Unmodelled
      else if c = CHR ''{'' \<and> t \<noteq> [] \<and> isdigit (hd t) then Unmodelled
      else if ascii c then repetition (Lit [c]) t
      else
        (let n = rune_size (c # t) in
         if n = 1 then SyntaxError
         else if take n (c # t) = replacement \<and> \<not> anchored then Unmodelled
         else repetition (Lit (take n (c # t))) (drop n (c # t))))"

lemma repetition_length: "repetition a t = Parsed (it, t') \<Longrightarrow> length t' \<le> length t"
  by (auto simp: repetition_def Let_def split: list.splits if_splits)

lemma next_item_length:
  assumes p: "next_item anchored s = Parsed (it, t)"
  shows "length t < length s"
proof (cases s)
  case Nil
  then show ?thesis using p by simp
next
  case (Cons c u)
  consider (rep) a v where "repetition a v = Parsed (it, t)" "length v < length s"
    | (beg) "t = u"
    using p Cons rune_size_pos [of c u]
    by (auto simp: Let_def unclosed_def simp del: rune_size.simps split: if_splits list.splits)
  then show ?thesis
  proof cases
    case rep
    then show ?thesis using repetition_length by fastforce
  next
    case beg
    then show ?thesis using Cons by simp
  qed
qed

text \<open>
  The items of a whole pattern. The parser of Go reads the pattern from left to right
  and stops at the first error: an error found after items that parse is the answer
  for the pattern.
\<close>

function parse_items :: "bool \<Rightarrow> string \<Rightarrow> item list parsed" where
  "parse_items anchored [] = Parsed []"
| "parse_items anchored (c # t) =
     (case next_item anchored (c # t) of
        SyntaxError \<Rightarrow> SyntaxError
      | Unmodelled \<Rightarrow> Unmodelled
      | Parsed (it, t') \<Rightarrow>
          (case parse_items anchored t' of
             Parsed r \<Rightarrow> Parsed (it # r)
           | SyntaxError \<Rightarrow> SyntaxError
           | Unmodelled \<Rightarrow> Unmodelled))"
  by pat_completeness auto
termination
  by (relation "measure (\<lambda>(a, s). length s)") (auto simp del: next_item.simps dest: next_item_length)

definition parse :: "string \<Rightarrow> item list parsed" where
  "parse pat = parse_items (pat \<noteq> [] \<and> hd pat = CHR ''^'') pat"

text \<open>
  \<^verbatim>\<open>regexp.Match(pattern, b)\<close>, of which the closures keep the boolean and drop the
  error: \<open>Some matched\<close> for a pattern that compiles, \<open>Some False\<close> for a pattern that
  does not compile (Go returns false with the error), and \<open>None\<close> for a pattern with a
  construct the model leaves out.
\<close>

definition regexp_Match :: "string \<Rightarrow> string \<Rightarrow> bool option" where
  "regexp_Match pat b =
     (case parse pat of
        Parsed r \<Rightarrow> Some (search r True b)
      | SyntaxError \<Rightarrow> Some False
      | Unmodelled \<Rightarrow> None)"

section \<open>The filter predicate and the watcher of one pod\<close>

text \<open>
  \<^verbatim>\<open>determineFilterFunc\<close>: \<open>None\<close> is the nil function value. The closures capture the
  pattern only; \<^verbatim>\<open>ok, _ := regexp.Match(...)\<close> drops the error, and the result of the
  call is \<open>regexp_Match\<close>'s. The function takes no filesystem: it never probes.
\<close>

definition determineFilterFunc :: "Pod \<Rightarrow> string \<Rightarrow> bool \<Rightarrow> (string \<Rightarrow> bool option) option" where
  "determineFilterFunc pod containerName legacy =
     (if containerName = [] then None
      else if legacy then
        (let re = ''^/var/log/containers/'' @ Name pod @ ''_'' @ Namespace pod @ ''_''
                    @ containerName @ ''-.+'' @ [CHR 0x5C] @ ''.log''
         in Some (\<lambda>fileName. regexp_Match re fileName))
      else
        (let uid = (case Annotations pod config_hash of Some hash \<Rightarrow> hash | None \<Rightarrow> UID pod);
             re = ''^/var/log/pods/'' @ uid @ ''/'' @ QuoteMeta containerName
                    @ ''_[0-9]*'' @ [CHR 0x5C] @ ''.log''
         in Some (\<lambda>fileName. regexp_Match re fileName)))"

text \<open>
  Modelled from the spec: the Per-Pod File Watcher (package \<^verbatim>\<open>tailer\<close>) is not among
  the source files. The spec calls the filter an optional predicate over filenames and
  says that the absence of a constraint yields an accept-all predicate: a nil filter
  accepts every file, any other filter is asked.
\<close>

definition filter_accepts :: "(string \<Rightarrow> bool option) option \<Rightarrow> string \<Rightarrow> bool option" where
  "filter_accepts flt fileName = (case flt of None \<Rightarrow> Some True | Some f \<Rightarrow> f fileName)"

text \<open>
  What \<^verbatim>\<open>tailer.NewPathWatcher\<close> is given: the pattern, the filter, and the handler
  factory, known here by the UID its metadata processor is bound to.
\<close>

record PathWatcher =
  pattern :: string
  filterFunc :: "(string \<Rightarrow> bool option) option"
  podUID :: string

text \<open>
  \<^verbatim>\<open>handlers.NewLineHandlerFactoryFromConfig\<close> is not among the source files: it is a
  parameter, a function of the configuration and of the UID of the metadata processor
  (unwrapper and transmitter are fixed) to the error it returns, \<open>None\<close> for nil.
\<close>

type_synonym factory = "WatcherConfig \<Rightarrow> string \<Rightarrow> error option"

text \<open>
  \<^verbatim>\<open>watcherForPod\<close>. A new watcher is allocated at the end of the list of watcher
  objects and is named by its index there. After a failed \<^verbatim>\<open>determineLogPattern\<close> the
  code logs a warning and goes on with the empty pattern that call returned.
\<close>

definition watcherForPod ::
  "PodSetTailer \<Rightarrow> factory \<Rightarrow> (string \<Rightarrow> stat_result) \<Rightarrow> Pod \<Rightarrow> string \<Rightarrow> PathWatcher list
     \<Rightarrow> (error + nat) \<times> PathWatcher list \<times> effect list" where
  "watcherForPod pt NewLineHandlerFactoryFromConfig os_Stat pod containerName objs =
     (let ((pat, err), probes) = determineLogPattern pod (legacyLogPaths pt) os_Stat;
          warned = (if err \<noteq> None then [Log WarnLevel ''Error finding log path''] else []);
          flt = determineFilterFunc pod containerName (legacyLogPaths pt)
      in case NewLineHandlerFactoryFromConfig (config pt) (UID pod) of
           Some e \<Rightarrow>
             (Inl e, objs,
              probes @ warned @ [NewLineHandlerFactory (UID pod),
                                 Log ErrorLevel ''Error setting up watcher''])
         | None \<Rightarrow>
             (Inr (length objs),
              objs @ [\<lparr>pattern = pat, filterFunc = flt, podUID = UID pod\<rparr>],
              probes @ warned @ [NewLineHandlerFactory (UID pod),
                                 Log InfoLevel ''Setting up watcher for pod'',
                                 NewPathWatcher (length objs) pat]))"

section \<open>The reconciliation loop\<close>

text \<open>
  The state of \<^verbatim>\<open>run\<close>'s loop: the local \<^verbatim>\<open>watcherMap\<close>, from UIDs to watcher
  addresses, and the watcher objects allocated so far.
\<close>

record loop_state =
  watcherMap :: "string \<rightharpoonup> nat"
  heap :: "PathWatcher list"

definition no_watchers :: loop_state where
  "no_watchers = \<lparr>watcherMap = Map.empty, heap = []\<rparr>"

text \<open>Lines 78-92: the case of the select that receives a pod.\<close>

definition podAdded ::
  "PodSetTailer \<Rightarrow> factory \<Rightarrow> loop_state \<Rightarrow> Pod \<Rightarrow> (string \<Rightarrow> stat_result)
     \<Rightarrow> loop_state \<times> effect list" where
  "podAdded pt NewLineHandlerFactoryFromConfig st pod os_Stat =
     (case watcherForPod pt NewLineHandlerFactoryFromConfig os_Stat pod
             (ContainerName (config pt)) (heap st) of
        (Inl e, objs, effs) \<Rightarrow> (st, effs @ [Log ErrorLevel ''Error setting up watcher''])
      | (Inr watcher, objs, effs) \<Rightarrow>
          (st\<lparr>watcherMap := (watcherMap st)(UID pod \<mapsto> watcher), heap := objs\<rparr>,
           effs @ [Log InfoLevel ''starting watcher for pod'', WatcherStart watcher]))"

text \<open>Lines 93-100: the case of the select that receives the UID of a deleted pod.\<close>

definition podDeleted :: "loop_state \<Rightarrow> string \<Rightarrow> loop_state \<times> effect list" where
  "podDeleted st deletedPodUID =
     (case watcherMap st deletedPodUID of
        Some watcher \<Rightarrow>
          (st\<lparr>watcherMap := (watcherMap st)(deletedPodUID := None)\<rparr>,
           [Log InfoLevel ''pod deleted, stopping watcher'', WatcherStop watcher])
      | None \<Rightarrow> (st, []))"

text \<open>
  What the Pod Event Source sends. A pod comes with the answers the filesystem gives
  while it is handled.
\<close>

datatype event = PodAdded Pod "string \<Rightarrow> stat_result" | PodDeleted string

fun handle :: "PodSetTailer \<Rightarrow> factory \<Rightarrow> loop_state \<Rightarrow> event \<Rightarrow> loop_state \<times> effect list" where
  "handle pt nf st (PodAdded pod os_Stat) = podAdded pt nf st pod os_Stat"
| "handle pt nf st (PodDeleted uid) = podDeleted st uid"

text \<open>The loop over a sequence of received events: one event at a time, in order.\<close>

fun run_loop :: "PodSetTailer \<Rightarrow> factory \<Rightarrow> loop_state \<Rightarrow> event list \<Rightarrow> loop_state \<times> effect list" where
  "run_loop pt nf st [] = (st, [])"
| "run_loop pt nf st (ev # evs) =
     (let (st', effs) = handle pt nf st ev;
          (st'', rest) = run_loop pt nf st' evs
      in (st'', effs @ rest))"

section \<open>Start, Stop and the goroutine of \<^verbatim>\<open>run\<close>\<close>

text \<open>
  Two threads: the caller, which calls \<^verbatim>\<open>Start()\<close> and later \<^verbatim>\<open>Stop()\<close>, once each, and
  the goroutine that executes \<^verbatim>\<open>run\<close>. The caller is before \<^verbatim>\<open>Start\<close>, between the two
  calls, blocked in the send \<^verbatim>\<open>pt.stop <- true\<close>, past the send and in \<^verbatim>\<open>pt.wg.Wait()\<close>,
  or back from \<^verbatim>\<open>Stop\<close>. The goroutine is not spawned, at the top of \<^verbatim>\<open>run\<close>, in the
  select, in the final range loop with the keys it has still to visit, past the
  deferred \<^verbatim>\<open>wg.Done()\<close>, or dead in a panic.
\<close>

datatype caller_pc = NotStarted | Running | Sending | Waiting | Returned

datatype runner_pc = NotSpawned | Entered | Selecting | Draining "string list" | Exited | Panicked

record system =
  caller :: caller_pc
  runner :: runner_pc
  wg :: nat
  loop :: loop_state
  trace :: "effect list"

definition initial :: system where
  "initial = \<lparr>caller = NotStarted, runner = NotSpawned, wg = 0, loop = no_watchers, trace = []\<rparr>"

text \<open>
  One step of either thread. The channel \<^verbatim>\<open>pt.stop\<close> is unbuffered: the send and the
  receive are one step (\<open>RecvStop\<close>), possible only when the goroutine is in the select.
  \<^verbatim>\<open>range watcherMap\<close> visits every key once, in an order Go does not fix: \<open>RecvStop\<close>
  picks any list of the keys without repetition. \<^verbatim>\<open>wg.Wait()\<close> returns only when the
  counter is 0.
\<close>

inductive step :: "PodSetTailer \<Rightarrow> factory \<Rightarrow> system \<Rightarrow> system \<Rightarrow> bool"
  for pt :: PodSetTailer and nf :: factory where
  Start:
    "caller s = NotStarted \<Longrightarrow>
     step pt nf s (s\<lparr>caller := Running, runner := Entered, wg := wg s + 1\<rparr>)"
| Enter:
    "runner s = Entered \<Longrightarrow> run_prologue pt = Some effs \<Longrightarrow>
     step pt nf s (s\<lparr>runner := Selecting, trace := trace s @ effs\<rparr>)"
| Panic:
    "runner s = Entered \<Longrightarrow> run_prologue pt = None \<Longrightarrow>
     step pt nf s (s\<lparr>runner := Panicked\<rparr>)"
| RecvPod:
    "runner s = Selecting \<Longrightarrow> podAdded pt nf (loop s) pod os_Stat = (st, effs) \<Longrightarrow>
     step pt nf s (s\<lparr>loop := st, trace := trace s @ effs\<rparr>)"
| RecvDeleted:
    "runner s = Selecting \<Longrightarrow> podDeleted (loop s) uid = (st, effs) \<Longrightarrow>
     step pt nf s (s\<lparr>loop := st, trace := trace s @ effs\<rparr>)"
| CallStop:
    "caller s = Running \<Longrightarrow> step pt nf s (s\<lparr>caller := Sending\<rparr>)"
| RecvStop:
    "caller s = Sending \<Longrightarrow> runner s = Selecting \<Longrightarrow>
     distinct keys \<Longrightarrow> set keys = dom (watcherMap (loop s)) \<Longrightarrow>
     step pt nf s
       (s\<lparr>caller := Waiting, runner := Draining keys, trace := trace s @ [StopReceived]\<rparr>)"
| Drain:
    "runner s = Draining (key # keys) \<Longrightarrow> watcherMap (loop s) key = Some watcher \<Longrightarrow>
     step pt nf s (s\<lparr>runner := Draining keys, trace := trace s @ [WatcherStop watcher]\<rparr>)"
| Exit:
    "runner s = Draining [] \<Longrightarrow>
     step pt nf s (s\<lparr>runner := Exited, wg := wg s - 1, trace := trace s @ [WgDone]\<rparr>)"
| WaitReturns:
    "caller s = Waiting \<Longrightarrow> wg s = 0 \<Longrightarrow>
     step pt nf s (s\<lparr>caller := Returned, trace := trace s @ [StopReturned]\<rparr>)"

inductive reachable :: "PodSetTailer \<Rightarrow> factory \<Rightarrow> system \<Rightarrow> bool"
  for pt :: PodSetTailer and nf :: factory where
  reach_init: "reachable pt nf initial"
| reach_step: "reachable pt nf s \<Longrightarrow> step pt nf s s' \<Longrightarrow> reachable pt nf s'"

section \<open>Notions used in the proofs, and example inputs\<close>

text \<open>The items of a sequence of literal runes.\<close>

definition lits :: "string list \<Rightarrow> item list" where
  "lits rs = map (\<lambda>r. One (Lit r)) rs"

text \<open>
  What may follow a literal part of a pattern without changing how that part is read:
  nothing, or a byte that is no repetition operator and no \<^verbatim>\<open>{\<close>; \<open>boundary\<close> asks for
  an ASCII byte too, so that the last rune of the literal part ends where the part ends.
\<close>

definition boundary :: "string \<Rightarrow> bool" where
  "boundary t = (t = [] \<or> (ascii (hd t) \<and> \<not> rep_op (hd t) \<and> hd t \<noteq> CHR ''{''))"

definition no_rep :: "string \<Rightarrow> bool" where
  "no_rep t = (t = [] \<or> (\<not> rep_op (hd t) \<and> hd t \<noteq> CHR ''{''))"

text \<open>Items put before the items of the rest of a pattern.\<close>

fun prepend :: "item list \<Rightarrow> item list parsed \<Rightarrow> item list parsed" where
  "prepend its (Parsed r) = Parsed (its @ r)"
| "prepend its SyntaxError = SyntaxError"
| "prepend its Unmodelled = Unmodelled"

text \<open>The runes of a string, each as its bytes; \<open>None\<close> for a string that is not UTF-8.\<close>

function decode :: "string \<Rightarrow> string list option" where
  "decode [] = Some []"
| "decode (c # t) =
     (let n = rune_size (c # t) in
      if \<not> ascii c \<and> n = 1 then None
      else map_option ((#) (take n (c # t))) (decode (drop n (c # t))))"
  by pat_completeness auto
termination
  by (relation "measure length") (use rune_size_drop in \<open>auto simp del: rune_size.simps\<close>)

text \<open>The items of \<^verbatim>\<open>\.log\<close>, the end of both templates.\<close>

definition dot_log :: "item list" where
  "dot_log = [One (Lit ''.''), One (Lit ''l''), One (Lit ''o''), One (Lit ''g'')]"



text \<open>
  \<open>stopping pt nf s0 s keys after\<close>: \<open>s0\<close> is a reachable state in which the caller is
  blocked in the send and the goroutine is in the select, no stop request has been
  received before; \<open>s\<close> is reached from \<open>s0\<close>; since \<open>s0\<close> the registry has not changed,
  and the trace of \<open>s\<close> is that of \<open>s0\<close>, then the receipt of the stop request, then one
  \<^verbatim>\<open>Stop\<close> call for the watcher the registry of \<open>s0\<close> holds for each key of \<open>keys\<close>, in
  that order, then \<open>after\<close>.
\<close>

definition stopping ::
  "PodSetTailer \<Rightarrow> factory \<Rightarrow> system \<Rightarrow> system \<Rightarrow> string list \<Rightarrow> effect list \<Rightarrow> bool" where
  "stopping pt nf s0 s keys after =
     (reachable pt nf s0 \<and> caller s0 = Sending \<and> runner s0 = Selecting
      \<and> StopReceived \<notin> set (trace s0) \<and> rtranclp (step pt nf) s0 s \<and> loop s = loop s0
      \<and> (\<exists>watchers. map (watcherMap (loop s0)) keys = map Some watchers
             \<and> trace s = trace s0 @ [StopReceived] @ map WatcherStop watchers @ after))"


text \<open>
  What the loop keeps true of the registry and the effects so far: a registered watcher
  is allocated, started and not stopped; no watcher is registered under two UIDs; only
  allocated watchers have been stopped.
\<close>

definition registry_ok :: "loop_state \<Rightarrow> effect list \<Rightarrow> bool" where
  "registry_ok st effs =
     ((\<forall>uid w. watcherMap st uid = Some w \<longrightarrow>
          w < length (heap st) \<and> WatcherStart w \<in> set effs \<and> WatcherStop w \<notin> set effs)
      \<and> (\<forall>uid uid' w. watcherMap st uid = Some w \<and> watcherMap st uid' = Some w \<longrightarrow> uid = uid')
      \<and> (\<forall>w. WatcherStop w \<in> set effs \<longrightarrow> w < length (heap st)))"

definition example_tailer :: PodSetTailer where
  "example_tailer =
     \<lparr>config = \<lparr>LabelSelector = Some [], cfg_Namespace = ''default'', ContainerName = []\<rparr>,
      nodeSelector = ''spec.nodeName=n1'', legacyLogPaths = False\<rparr>"

definition legacy_tailer :: PodSetTailer where
  "legacy_tailer = example_tailer\<lparr>legacyLogPaths := True\<rparr>"

definition example_pod :: Pod where
  "example_pod = \<lparr>Name = ''web-1'', Namespace = ''default'', UID = ''u1'', Annotations = Map.empty\<rparr>"

definition critical_pod :: Pod where
  "critical_pod =
     \<lparr>Name = ''etcd'', Namespace = ''kube-system'', UID = ''u1'',
      Annotations = [config_hash \<mapsto> ''abc123'']\<rparr>"

text \<open>A pod whose config hash holds a regular-expression metacharacter, and its disk.\<close>

definition metachar_pod :: Pod where
  "metachar_pod =
     \<lparr>Name = ''etcd'', Namespace = ''kube-system'', UID = ''abc'',
      Annotations = [config_hash \<mapsto> ''a.c'']\<rparr>"

definition abc_disk :: "string \<Rightarrow> stat_result" where
  "abc_disk path = (if path = ''/var/log/pods/abc'' then StatOk else StatNotExist)"

text \<open>A pod whose config hash is the replacement character and whose UID is not UTF-8.\<close>

definition replacement_pod :: Pod where
  "replacement_pod =
     \<lparr>Name = ''etcd'', Namespace = ''kube-system'', UID = [CHR 0xFF],
      Annotations = [config_hash \<mapsto> replacement]\<rparr>"

definition factory_ok :: factory where
  "factory_ok cfg uid = None"

definition factory_fails :: factory where
  "factory_fails cfg uid = Some (FactoryError ''unknown parser'')"

definition empty_disk :: "string \<Rightarrow> stat_result" where
  "empty_disk path = StatNotExist"

definition uid_disk :: "string \<Rightarrow> stat_result" where
  "uid_disk path = (if path = ''/var/log/pods/u1'' then StatOk else StatNotExist)"





lemmas example_defs = example_tailer_def legacy_tailer_def example_pod_def critical_pod_def
  factory_ok_def factory_fails_def empty_disk_def uid_disk_def no_watchers_def

lemmas loop_defs = podAdded_def watcherForPod_def determineLogPattern_def uidLogPattern_def
  determineFilterFunc_def podDeleted_def config_hash_def

lemmas parse_eval = parse_def next_item.simps repetition_def unclosed_def special_def ascii_def
  isalnum_def isdigit_def rep_op_def

section \<open>The log path resolver\<close>

lemma absent_on_error_ok: "(absent_on_error st path = StatOk) = (st path = StatOk)"
  by (simp add: absent_on_error_def)

lemma uidLogPattern_absent: "uidLogPattern pod (absent_on_error st) = uidLogPattern pod st"
  by (simp add: uidLogPattern_def Let_def absent_on_error_ok)

text \<open>
  Claim C7. In legacy mode \<^verbatim>\<open>determineLogPattern\<close> returns the pattern
  \<^verbatim>\<open>/var/log/containers/<name>_<namespace>_*.log\<close> with a nil error for every pod, makes
  no filesystem probe (its list of effects is empty), and does so whatever the
  filesystem answers.
\<close>

theorem determineLogPattern_legacy:
  "determineLogPattern pod True os_Stat =
     ((''/var/log/containers/'' @ Name pod @ ''_'' @ Namespace pod @ ''_*.log'', None), [])"
  by (simp add: determineLogPattern_def)

theorem determineLogPattern_legacy_witness:
  "determineLogPattern
     \<lparr>Name = ''web-1'', Namespace = ''default'', UID = ''u1'', Annotations = Map.empty\<rparr>
     True (\<lambda>_. StatFailed)
   = ((''/var/log/containers/web-1_default_*.log'', None), [])"
  using determineLogPattern_legacy
    [of "\<lparr>Name = ''web-1'', Namespace = ''default'', UID = ''u1'', Annotations = Map.empty\<rparr>"
        "\<lambda>_. StatFailed"]
  by simp

text \<open>
  Claim C4. Outside legacy mode: when the pod has the config-hash annotation and the
  probe of \<^verbatim>\<open>/var/log/pods/<hash>\<close> succeeds, the result is \<^verbatim>\<open>/var/log/pods/<hash>/*\<close>,
  whatever the probe of the UID directory would answer; otherwise, when the probe of
  \<^verbatim>\<open>/var/log/pods/<uid>\<close> succeeds, the result is \<^verbatim>\<open>/var/log/pods/<uid>/*\<close>; otherwise
  the call fails with the path-not-found error. A probe that ends in an error other
  than not-exist gives the same result, probes and log lines as a probe that finds
  nothing.
\<close>

theorem determineLogPattern_precedence:
  "(\<forall>hash. Annotations pod config_hash = Some hash \<and> os_Stat (''/var/log/pods/'' @ hash) = StatOk
      \<longrightarrow> fst (determineLogPattern pod False os_Stat) = (''/var/log/pods/'' @ hash @ ''/*'', None))
   \<and> (\<not> (\<exists>hash. Annotations pod config_hash = Some hash \<and> os_Stat (''/var/log/pods/'' @ hash) = StatOk)
      \<and> os_Stat (''/var/log/pods/'' @ UID pod) = StatOk
      \<longrightarrow> fst (determineLogPattern pod False os_Stat) = (''/var/log/pods/'' @ UID pod @ ''/*'', None))
   \<and> (\<not> (\<exists>hash. Annotations pod config_hash = Some hash \<and> os_Stat (''/var/log/pods/'' @ hash) = StatOk)
      \<and> os_Stat (''/var/log/pods/'' @ UID pod) \<noteq> StatOk
      \<longrightarrow> fst (determineLogPattern pod False os_Stat) = ([], Some (PathNotFound (UID pod))))
   \<and> determineLogPattern pod False (absent_on_error os_Stat) = determineLogPattern pod False os_Stat"
proof -
  have absent: "determineLogPattern pod False (absent_on_error os_Stat) = determineLogPattern pod False os_Stat"
    by (simp add: determineLogPattern_def Let_def absent_on_error_ok uidLogPattern_absent
        split: option.splits)
  show ?thesis
  proof (cases "Annotations pod config_hash")
    case None
    then show ?thesis using absent
      by (simp add: determineLogPattern_def uidLogPattern_def Let_def)
  next
    case (Some h)
    then show ?thesis using absent
      by (simp add: determineLogPattern_def uidLogPattern_def Let_def split: prod.splits)
  qed
qed

theorem determineLogPattern_precedence_witness:
  "fst (determineLogPattern
          \<lparr>Name = ''etcd'', Namespace = ''kube-system'', UID = ''u1'',
           Annotations = [config_hash \<mapsto> ''abc123'']\<rparr>
          False (\<lambda>p. if p = ''/var/log/pods/abc123'' \<or> p = ''/var/log/pods/u1'' then StatOk else StatNotExist))
     = (''/var/log/pods/abc123/*'', None)
   \<and> fst (determineLogPattern
          \<lparr>Name = ''etcd'', Namespace = ''kube-system'', UID = ''u1'',
           Annotations = [config_hash \<mapsto> ''abc123'']\<rparr>
          False (\<lambda>p. if p = ''/var/log/pods/u1'' then StatOk else StatFailed))
     = (''/var/log/pods/u1/*'', None)
   \<and> fst (determineLogPattern
          \<lparr>Name = ''web-1'', Namespace = ''default'', UID = ''u1'', Annotations = Map.empty\<rparr>
          False (\<lambda>p. StatFailed))
     = ([], Some (PathNotFound ''u1''))"
  using determineLogPattern_precedence
    [of "\<lparr>Name = ''etcd'', Namespace = ''kube-system'', UID = ''u1'',
           Annotations = [config_hash \<mapsto> ''abc123'']\<rparr>"
        "\<lambda>p. if p = ''/var/log/pods/abc123'' \<or> p = ''/var/log/pods/u1'' then StatOk else StatNotExist"]
    determineLogPattern_precedence
    [of "\<lparr>Name = ''etcd'', Namespace = ''kube-system'', UID = ''u1'',
           Annotations = [config_hash \<mapsto> ''abc123'']\<rparr>"
        "\<lambda>p. if p = ''/var/log/pods/u1'' then StatOk else StatFailed"]
    determineLogPattern_precedence
    [of "\<lparr>Name = ''web-1'', Namespace = ''default'', UID = ''u1'', Annotations = Map.empty\<rparr>"
        "\<lambda>p. StatFailed"]
  by simp

section \<open>The label selector\<close>

text \<open>
  Claim C6. For every label selector the user supplies, the empty one included, the
  selector handed to the Pod Event Source is the user's selector followed by the
  self-exclusion clause \<^verbatim>\<open>k8s-app!=honeycomb-agent\<close>, with a comma between the two when
  the user's selector is not empty; so the clause is always the end of the selector.
\<close>

theorem run_labelSelector_excludes_agent:
  "LabelSelector (config pt) = Some sel \<Longrightarrow>
     run_labelSelector pt
       = Some (sel @ (if sel = [] then [] else '','') @ ''k8s-app!=honeycomb-agent'')
     \<and> run_prologue pt
       = Some [NewPodWatcher (cfg_Namespace (config pt))
                 (sel @ (if sel = [] then [] else '','') @ ''k8s-app!=honeycomb-agent'')
                 (nodeSelector pt)]
     \<and> (\<exists>sel'. run_labelSelector pt = Some sel' \<and> suffix ''k8s-app!=honeycomb-agent'' sel')"
  by (simp add: run_labelSelector_def run_prologue_def suffix_def)

theorem run_labelSelector_excludes_agent_witness:
  "run_labelSelector
     \<lparr>config = \<lparr>LabelSelector = Some ''app=web'', cfg_Namespace = ''default'', ContainerName = []\<rparr>,
      nodeSelector = ''spec.nodeName=n1'', legacyLogPaths = False\<rparr>
     = Some ''app=web,k8s-app!=honeycomb-agent''
   \<and> run_labelSelector
     \<lparr>config = \<lparr>LabelSelector = Some [], cfg_Namespace = ''default'', ContainerName = []\<rparr>,
      nodeSelector = ''spec.nodeName=n1'', legacyLogPaths = False\<rparr>
     = Some ''k8s-app!=honeycomb-agent''"
  using run_labelSelector_excludes_agent
    [of "\<lparr>config = \<lparr>LabelSelector = Some ''app=web'', cfg_Namespace = ''default'', ContainerName = []\<rparr>,
      nodeSelector = ''spec.nodeName=n1'', legacyLogPaths = False\<rparr>" "''app=web''"]
    run_labelSelector_excludes_agent
    [of "\<lparr>config = \<lparr>LabelSelector = Some [], cfg_Namespace = ''default'', ContainerName = []\<rparr>,
      nodeSelector = ''spec.nodeName=n1'', legacyLogPaths = False\<rparr>" "[]"]
  by simp

section \<open>Facts about the pattern matcher\<close>

lemma rune_size_ascii: "ascii x \<Longrightarrow> rune_size (x # p) = 1"
  by (simp add: ascii_def Let_def)

lemma rune_size_bound:
  "rune_size (x # p) \<le> Suc (length (takeWhile (\<lambda>b. \<not> ascii b) p))"
proof (cases p)
  case Nil
  then show ?thesis by (simp add: Let_def)
next
  case p: (Cons b1 p1)
  show ?thesis
  proof (cases p1)
    case Nil
    then show ?thesis using p by (simp add: Let_def between_def ascii_def)
  next
    case p1: (Cons b2 p2)
    show ?thesis
    proof (cases p2)
      case Nil
      then show ?thesis using p p1 by (simp add: Let_def between_def ascii_def)
    next
      case (Cons b3 p3)
      then show ?thesis using p p1 by (simp add: Let_def between_def ascii_def)
    qed
  qed
qed

lemma between_nonascii: "0x80 \<le> lo \<Longrightarrow> between lo hi b \<Longrightarrow> \<not> ascii b"
  by (simp add: between_def ascii_def)

lemma rune_size_local:
  "rune_size (x # p) = rune_size (x # takeWhile (\<lambda>b. \<not> ascii b) (take 3 p))"
proof (cases p)
  case Nil
  then show ?thesis by simp
next
  case p: (Cons b1 p1)
  show ?thesis
  proof (cases "ascii b1")
    case True
    then show ?thesis using p by (simp add: Let_def between_def ascii_def split: list.splits)
  next
    case b1: False
    show ?thesis
    proof (cases p1)
      case Nil
      then show ?thesis using p b1 by (simp add: Let_def)
    next
      case p1: (Cons b2 p2)
      show ?thesis
      proof (cases "ascii b2")
        case True
        then show ?thesis using p p1 b1 by (simp add: Let_def between_def ascii_def split: list.splits)
      next
        case b2: False
        show ?thesis
        proof (cases p2)
          case Nil
          then show ?thesis using p p1 b1 b2 by (simp add: Let_def)
        next
          case p2: (Cons b3 p3)
          show ?thesis
          proof (cases "ascii b3")
            case True
            then show ?thesis using p p1 p2 b1 b2 by (simp add: Let_def between_def ascii_def split: list.splits)
          next
            case False
            then show ?thesis using p p1 p2 b1 b2 by (simp add: Let_def)
          qed
        qed
      qed
    qed
  qed
qed

declare rune_size.simps [simp del]

lemma ascii_backslash [simp]: "ascii (CHR 0x5C)"
  by (simp add: ascii_def)

lemma special_ascii: "special c \<Longrightarrow> ascii c \<and> \<not> isalnum c"
  by (auto simp: special_def ascii_def isalnum_def)

lemma takeWhile_take_append:
  "t = [] \<or> \<not> P (hd t) \<Longrightarrow> takeWhile P (take k (s @ t)) = takeWhile P (take k s)"
proof (induction s arbitrary: k)
  case Nil
  then show ?case by (cases t; cases k) auto
next
  case (Cons a s)
  then show ?case by (cases k) auto
qed

lemma takeWhile_take_QuoteMeta:
  "t = [] \<or> ascii (hd t) \<Longrightarrow>
     takeWhile (\<lambda>b. \<not> ascii b) (take k (QuoteMeta s @ t)) = takeWhile (\<lambda>b. \<not> ascii b) (take k s)"
proof (induction s arbitrary: k)
  case Nil
  then show ?case by (cases t; cases k) auto
next
  case (Cons a s)
  then show ?case by (cases k) (auto dest: special_ascii)
qed

lemma rune_size_append:
  "t = [] \<or> ascii (hd t) \<Longrightarrow> rune_size (x # s @ t) = rune_size (x # s)"
  using rune_size_local [of x "s @ t"] rune_size_local [of x s]
    takeWhile_take_append [of t "\<lambda>b. \<not> ascii b" 3 s]
  by simp

lemma rune_size_QuoteMeta:
  "t = [] \<or> ascii (hd t) \<Longrightarrow> rune_size (x # QuoteMeta s @ t) = rune_size (x # s)"
  using rune_size_local [of x "QuoteMeta s @ t"] rune_size_local [of x s]
    takeWhile_take_QuoteMeta [of t 3 s]
  by simp

lemma rune_bytes:
  assumes "rune_size (x # s) = Suc k"
  shows "k \<le> length s \<and> (\<forall>b\<in>set (take k s). \<not> ascii b)"
proof -
  let ?w = "takeWhile (\<lambda>b. \<not> ascii b) s"
  have k: "k \<le> length ?w" using rune_size_bound [of x s] assms by simp
  have "take k s = take k (?w @ dropWhile (\<lambda>b. \<not> ascii b) s)" by simp
  also have "\<dots> = take k ?w" using k by (simp del: takeWhile_dropWhile_id)
  finally have "set (take k s) \<subseteq> set ?w" by (metis set_take_subset)
  then show ?thesis using k length_takeWhile_le [of "\<lambda>b. \<not> ascii b" s]
    by (auto dest: set_takeWhileD)
qed

lemma QuoteMeta_append: "QuoteMeta (a @ b) = QuoteMeta a @ QuoteMeta b"
  by (induction a) auto

lemma QuoteMeta_id: "\<forall>c\<in>set a. \<not> special c \<Longrightarrow> QuoteMeta a = a"
  by (induction a) auto

lemma QuoteMeta_no_rep: "boundary t \<Longrightarrow> no_rep (QuoteMeta s @ t)"
  by (cases s) (auto simp: boundary_def no_rep_def rep_op_def special_def)

lemma prepend_Nil [simp]: "prepend [] p = p"
  by (cases p) simp_all

lemma prepend_Cons: "prepend (it # its) p = (case prepend its p of
     Parsed r \<Rightarrow> Parsed (it # r) | SyntaxError \<Rightarrow> SyntaxError | Unmodelled \<Rightarrow> Unmodelled)"
  by (cases p) simp_all

lemma repetition_One: "no_rep t \<Longrightarrow> repetition a t = Parsed (One a, t)"
  by (cases t) (auto simp: repetition_def no_rep_def)

lemma nonascii_plain:
  "\<not> ascii c \<Longrightarrow> \<not> special c \<and> \<not> rep_op c \<and> c \<noteq> CHR 0x5C \<and> c \<noteq> CHR ''.'' \<and> c \<noteq> CHR ''[''
     \<and> c \<noteq> CHR ''^'' \<and> c \<noteq> CHR '')'' \<and> c \<noteq> CHR ''('' \<and> c \<noteq> CHR ''|'' \<and> c \<noteq> CHR ''$'' \<and> c \<noteq> CHR ''{''"
  by (auto simp: ascii_def special_def rep_op_def)

lemma next_item_escaped:
  "special c \<Longrightarrow> no_rep t \<Longrightarrow> next_item anchored (CHR 0x5C # c # t) = Parsed (One (Lit [c]), t)"
  by (simp add: repetition_One special_ascii)

lemma next_item_ascii:
  "ascii c \<Longrightarrow> \<not> special c \<Longrightarrow> no_rep t \<Longrightarrow> next_item anchored (c # t) = Parsed (One (Lit [c]), t)"
  by (auto simp: special_def rep_op_def repetition_One)

lemma next_item_rune:
  assumes "\<not> ascii c" "rune_size (c # t) = Suc (Suc k)" "no_rep (drop (Suc k) t)"
  shows "next_item True (c # t) = Parsed (One (Lit (c # take (Suc k) t)), drop (Suc k) t)"
  using assms nonascii_plain [OF assms(1)] by (simp add: repetition_One Let_def)

lemma next_item_invalid:
  "\<not> ascii c \<Longrightarrow> rune_size (c # t) = 1 \<Longrightarrow> next_item anchored (c # t) = SyntaxError"
  using nonascii_plain [of c] by (simp add: Let_def)

lemma QuoteMeta_nonascii:
  "\<forall>b\<in>set a. \<not> ascii b \<Longrightarrow> QuoteMeta (a @ s) = a @ QuoteMeta s"
  using QuoteMeta_id [of a] by (auto simp: QuoteMeta_append dest: special_ascii)

lemma parse_items_quoted:
  "boundary t \<Longrightarrow>
     parse_items True (QuoteMeta x @ t)
       = (case decode x of None \<Rightarrow> SyntaxError | Some rs \<Rightarrow> prepend (lits rs) (parse_items True t))"
proof (induction x rule: decode.induct)
  case 1
  then show ?case by (simp add: lits_def)
next
  case (2 c s)
  have nr: "no_rep (QuoteMeta u @ t)" for u using "2.prems" by (rule QuoteMeta_no_rep)
  have bt: "t = [] \<or> ascii (hd t)" using "2.prems" by (auto simp: boundary_def)
  show ?case
  proof (cases "ascii c")
    case True
    then have n: "rune_size (c # s) = 1" by (rule rune_size_ascii)
    have ih: "parse_items True (QuoteMeta s @ t)
       = (case decode s of None \<Rightarrow> SyntaxError | Some rs \<Rightarrow> prepend (lits rs) (parse_items True t))"
      using "2.IH" [of 1] n True "2.prems" by simp
    have ni: "next_item True (QuoteMeta [c] @ QuoteMeta s @ t) = Parsed (One (Lit [c]), QuoteMeta s @ t)"
      using True nr [of s] by (cases "special c") (simp_all add: next_item_escaped next_item_ascii del: next_item.simps)
    have ne: "QuoteMeta [c] @ QuoteMeta s @ t \<noteq> []" by simp
    then obtain h r where hr: "QuoteMeta [c] @ QuoteMeta s @ t = h # r" by (cases "QuoteMeta [c] @ QuoteMeta s @ t") auto
    have "parse_items True (QuoteMeta (c # s) @ t)
        = (case parse_items True (QuoteMeta s @ t) of
             Parsed r \<Rightarrow> Parsed (One (Lit [c]) # r) | SyntaxError \<Rightarrow> SyntaxError | Unmodelled \<Rightarrow> Unmodelled)"
      using ni hr QuoteMeta_append [of "[c]" s]
      by (simp del: next_item.simps QuoteMeta.simps)
    then show ?thesis using ih n True
      by (simp add: lits_def prepend_Cons del: QuoteMeta.simps split: option.splits)
  next
    case False
    have q: "QuoteMeta (c # s) = c # QuoteMeta s" using nonascii_plain [OF False] by simp
    have rq: "rune_size (c # QuoteMeta s @ t) = rune_size (c # s)"
      using bt by (rule rune_size_QuoteMeta)
    show ?thesis
    proof (cases "rune_size (c # s) = 1")
      case True
      then show ?thesis using False q rq next_item_invalid [of c "QuoteMeta s @ t" True]
        by (simp del: next_item.simps)
    next
      case n1: False
      then obtain k where k: "rune_size (c # s) = Suc (Suc k)"
        using rune_size_pos [of c s] by (cases "rune_size (c # s)") (auto simp: gr0_conv_Suc)
      have rb: "Suc k \<le> length s" "\<forall>b\<in>set (take (Suc k) s). \<not> ascii b"
        using rune_bytes [OF k] by auto
      have qs: "QuoteMeta s = take (Suc k) s @ QuoteMeta (drop (Suc k) s)"
        using QuoteMeta_nonascii [OF rb(2), of "drop (Suc k) s"] by simp
      have tk: "take (Suc k) (QuoteMeta s @ t) = take (Suc k) s"
        "drop (Suc k) (QuoteMeta s @ t) = QuoteMeta (drop (Suc k) s) @ t"
        using rb(1) by (subst qs, simp)+
      have ni: "next_item True (c # QuoteMeta s @ t)
          = Parsed (One (Lit (c # take (Suc k) s)), QuoteMeta (drop (Suc k) s) @ t)"
        using next_item_rune [OF False, of "QuoteMeta s @ t" k] rq k tk nr [of "drop (Suc k) s"]
        by simp
      have ih: "parse_items True (QuoteMeta (drop (Suc k) s) @ t)
         = (case decode (drop (Suc k) s) of None \<Rightarrow> SyntaxError
            | Some rs \<Rightarrow> prepend (lits rs) (parse_items True t))"
        using "2.IH" [of "Suc (Suc k)"] k False "2.prems" by simp
      show ?thesis using ni ih k False q
        by (simp add: lits_def prepend_Cons del: next_item.simps QuoteMeta.simps split: option.splits)
    qed
  qed
qed

lemma decode_concat: "decode x = Some rs \<Longrightarrow> concat rs = x \<and> (\<forall>r\<in>set rs. r \<noteq> [])"
proof (induction x arbitrary: rs rule: decode.induct)
  case 1
  then show ?case by simp
next
  case (2 c t)
  let ?n = "rune_size (c # t)"
  from "2.prems" obtain rs' where rs': "decode (drop ?n (c # t)) = Some rs'" "rs = take ?n (c # t) # rs'"
    "\<not> (\<not> ascii c \<and> ?n = 1)"
    by (auto simp: Let_def split: if_splits)
  have "concat rs' = drop ?n (c # t) \<and> (\<forall>r\<in>set rs'. r \<noteq> [])"
    using "2.IH" [OF refl rs'(3) rs'(1)] .
  then show ?case using rs'(2) rune_size_pos [of c t] by auto
qed

lemma decode_ascii: "\<forall>c\<in>set L. ascii c \<Longrightarrow> decode L = Some (map (\<lambda>c. [c]) L)"
  by (induction L) (simp_all add: rune_size_ascii)

lemma decode_split:
  "ascii a \<Longrightarrow>
     decode (A @ a # B)
       = (case decode A of None \<Rightarrow> None | Some ra \<Rightarrow> map_option (\<lambda>rb. ra @ [a] # rb) (decode B))"
proof (induction A rule: decode.induct)
  case 1
  then show ?case by (simp add: rune_size_ascii)
next
  case (2 c s)
  have rs: "rune_size (c # s @ a # B) = rune_size (c # s)"
    using rune_size_append [of "a # B" c s] "2.prems" by simp
  show ?case
  proof (cases "\<not> ascii c \<and> rune_size (c # s) = 1")
    case True
    then show ?thesis using rs by simp
  next
    case False
    obtain k where k: "rune_size (c # s) = Suc k"
      using rune_size_pos [of c s] by (cases "rune_size (c # s)") auto
    have kl: "k \<le> length s" using rune_bytes [OF k] by simp
    have ih: "decode (drop k s @ a # B)
       = (case decode (drop k s) of None \<Rightarrow> None | Some ra \<Rightarrow> map_option (\<lambda>rb. ra @ [a] # rb) (decode B))"
      using "2.IH" [of "Suc k"] k False "2.prems" by simp
    show ?thesis using rs k kl False ih
      by (auto simp: option.map_comp comp_def split: option.splits)
  qed
qed

lemma prefix_append_drop: "prefix (a @ b) s = (prefix a s \<and> prefix b (drop (length a) s))"
  by (auto simp: prefix_def)

lemma accepts_Lit:
  "r \<noteq> [] \<Longrightarrow> r \<noteq> replacement \<Longrightarrow> accepts (Lit r) s = (if prefix r s then length r else 0)"
  by (cases s) auto

lemma accepts_Lit_prefix: "r \<noteq> [] \<Longrightarrow> prefix r s \<Longrightarrow> accepts (Lit r) s = length r"
  by (cases s) auto

lemma match_here_lits:
  "[] \<notin> set rs \<Longrightarrow> replacement \<notin> set rs \<Longrightarrow>
     match_here (lits rs @ R) b s
       = (prefix (concat rs) s \<and> match_here R (b \<and> rs = []) (drop (length (concat rs)) s))"
proof (induction rs arbitrary: b s)
  case Nil
  then show ?case by (simp add: lits_def)
next
  case (Cons r rs)
  have r: "r \<noteq> []" "r \<noteq> replacement" using Cons.prems by auto
  have ih: "match_here (lits rs @ R) False s'
       = (prefix (concat rs) s' \<and> match_here R False (drop (length (concat rs)) s'))" for s'
    using Cons.IH [of False s'] Cons.prems by simp
  have l: "lits (r # rs) @ R = One (Lit r) # lits rs @ R" by (simp add: lits_def)
  show ?case
    unfolding l using r
    by (simp add: accepts_Lit ih prefix_append_drop add.commute Let_def del: accepts.simps)
qed

lemma match_here_lits_prefix:
  "[] \<notin> set rs \<Longrightarrow> prefix (concat rs) s
     \<Longrightarrow> match_here R (b \<and> rs = []) (drop (length (concat rs)) s)
     \<Longrightarrow> match_here (lits rs @ R) b s"
proof (induction rs arbitrary: b s)
  case Nil
  then show ?case by (simp add: lits_def)
next
  case (Cons r rs)
  have r: "r \<noteq> []" using Cons.prems by auto
  have p: "prefix r s" "prefix (concat rs) (drop (length r) s)"
    using Cons.prems(2) by (simp_all add: prefix_append_drop)
  have "match_here R (False \<and> rs = []) (drop (length (concat rs)) (drop (length r) s))"
    using Cons.prems(3) by (simp add: add.commute)
  then have "match_here (lits rs @ R) False (drop (length r) s)"
    using Cons.IH [of "drop (length r) s" False] Cons.prems(1) p(2) by simp
  moreover have l: "lits (r # rs) @ R = One (Lit r) # lits rs @ R" by (simp add: lits_def)
  ultimately show ?case
    unfolding l using r p(1) by (simp add: accepts_Lit_prefix Let_def del: accepts.simps)
qed

lemma takeWhile_append_stop:
  "t = [] \<or> \<not> P (hd t) \<Longrightarrow> length (takeWhile P (s @ t)) \<le> length s"
  by (induction s) (auto simp: takeWhile_eq_Nil_iff neq_Nil_conv)

lemma rune_size_junction:
  "t = [] \<or> ascii (hd t) \<Longrightarrow> rune_size (x # s @ t) \<le> Suc (length s)"
  using rune_size_bound [of x "s @ t"] takeWhile_append_stop [of t "\<lambda>b. \<not> ascii b" s]
  by simp

lemma any_step:
  assumes "x \<noteq> CHR 0x0A" "t = [] \<or> ascii (hd t)"
  shows "\<exists>n. accepts AnyCharNotNL (x # s @ t) = Suc n \<and> n \<le> length s
           \<and> drop (Suc n) (x # s @ t) = drop n s @ t"
proof -
  obtain n where n: "rune_size (x # s @ t) = Suc n"
    using rune_size_pos [of x "s @ t"] by (cases "rune_size (x # s @ t)") simp_all
  then have "n \<le> length s" using rune_size_junction [OF assms(2), of x s] by simp
  then show ?thesis using n assms(1) by simp
qed

lemma star_any:
  "CHR 0x0A \<notin> set s \<Longrightarrow> t = [] \<or> ascii (hd t) \<Longrightarrow> match_here r False t
     \<Longrightarrow> match_here (Star AnyCharNotNL # r) False (s @ t)"
proof (induction "length s" arbitrary: s rule: less_induct)
  case less
  show ?case
  proof (cases s)
    case Nil
    then show ?thesis using less.prems by simp
  next
    case (Cons x s')
    then obtain n where n: "accepts AnyCharNotNL (x # s' @ t) = Suc n" "n \<le> length s'"
      "drop (Suc n) (x # s' @ t) = drop n s' @ t"
      using any_step [of x t s'] less.prems by (auto simp del: accepts.simps)
    have "CHR 0x0A \<notin> set (drop n s')"
      using less.prems(1) Cons by (auto dest: in_set_dropD)
    then have "match_here (Star AnyCharNotNL # r) False (drop n s' @ t)"
      using less.hyps [of "drop n s'"] less.prems Cons by simp
    then show ?thesis using n Cons
      by (simp del: accepts.simps drop_Suc_Cons)
  qed
qed

lemma plus_any:
  assumes "s \<noteq> []" "CHR 0x0A \<notin> set s" "t = [] \<or> ascii (hd t)" "match_here r False t"
  shows "match_here (Plus AnyCharNotNL # r) b (s @ t)"
proof -
  from assms(1) obtain x s' where s: "s = x # s'" by (cases s) auto
  then obtain n where n: "accepts AnyCharNotNL (x # s' @ t) = Suc n" "n \<le> length s'"
      "drop (Suc n) (x # s' @ t) = drop n s' @ t"
    using any_step [of x t s'] assms by (auto simp del: accepts.simps)
  have "CHR 0x0A \<notin> set (drop n s')"
    using assms(2) s by (auto dest: in_set_dropD)
  then have "match_here (Star AnyCharNotNL # r) False (drop n s' @ t)"
    using star_any [of "drop n s'" t r] assms by simp
  then show ?thesis using n s
    by (simp del: accepts.simps drop_Suc_Cons)
qed

lemma search_BeginText_False: "search (BeginText # r) False s = False"
  by (induction "BeginText # r" False s rule: search.induct) simp_all

lemma search_BeginText: "search (BeginText # r) True s = match_here r True s"
  by (cases s) (simp_all add: search_BeginText_False)

lemma parse_anchored:
  assumes "boundary t"
  shows "parse (CHR ''^'' # QuoteMeta x @ t)
     = (case decode x of None \<Rightarrow> SyntaxError
        | Some rs \<Rightarrow> prepend (BeginText # lits rs) (parse_items True t))"
proof -
  have nr: "no_rep (QuoteMeta x @ t)" using assms by (rule QuoteMeta_no_rep)
  have ni: "next_item True (CHR ''^'' # QuoteMeta x @ t) = Parsed (BeginText, QuoteMeta x @ t)"
    using nr by (auto simp: no_rep_def rep_op_def)
  show ?thesis
    using ni parse_items_quoted [OF assms, of x]
    by (simp add: parse_def prepend_Cons del: next_item.simps split: option.splits)
qed

lemma regexp_Match_anchored:
  assumes "boundary t" "parse_items True t = Parsed R" "decode x = Some rs"
  shows "regexp_Match (CHR ''^'' # QuoteMeta x @ t) f = Some (match_here (lits rs @ R) True f)"
  unfolding regexp_Match_def parse_anchored [OF assms(1)]
  using assms(2,3) by (simp add: search_BeginText del: match_here.simps)

lemma regexp_Match_invalid:
  assumes "boundary t" "decode x = None"
  shows "regexp_Match (CHR ''^'' # QuoteMeta x @ t) f = Some False"
  unfolding regexp_Match_def parse_anchored [OF assms(1)]
  using assms(2) by simp

lemma decode_sublist: "decode x = Some rs \<Longrightarrow> r \<in> set rs \<Longrightarrow> sublist r x"
proof -
  assume d: "decode x = Some rs" and r: "r \<in> set rs"
  obtain a b where "rs = a @ r # b" using r by (auto simp: in_set_conv_decomp)
  then have "x = concat a @ r @ concat b" using decode_concat [OF d] by auto
  then show ?thesis by (auto simp: sublist_def)
qed

lemma match_here_bytes:
  "match_here (lits (map (\<lambda>c. [c]) L) @ R) b s
     = (prefix L s \<and> match_here R (b \<and> L = []) (drop (length L) s))"
proof -
  have "[] \<notin> set (map (\<lambda>c. [c]) L)" "replacement \<notin> set (map (\<lambda>c. [c]) L)"
    by (auto simp: replacement_def)
  then show ?thesis
    using match_here_lits [of "map (\<lambda>c. [c]) L" R b s] by simp
qed

lemma regexp_Match_anchored_ascii:
  assumes "\<forall>c\<in>set L. ascii c \<and> \<not> special c" "boundary t" "parse_items True t = Parsed R"
  shows "regexp_Match (CHR ''^'' # L @ t) f
           = Some (prefix L f \<and> match_here R (L = []) (drop (length L) f))"
proof -
  have q: "QuoteMeta L = L" using assms(1) by (simp add: QuoteMeta_id)
  have d: "decode L = Some (map (\<lambda>c. [c]) L)" using assms(1) by (simp add: decode_ascii)
  show ?thesis
    using regexp_Match_anchored [OF assms(2,3) d, of f]
    by (simp only: q match_here_bytes simp_thms)
qed

lemma parse_legacy_tail:
  "parse_items True (''.+'' @ [CHR 0x5C] @ ''.log'') = Parsed (Plus AnyCharNotNL # dot_log)"
  by (simp add: parse_eval dot_log_def)

lemma parse_pods_tail:
  "parse_items True (''_[0-9]*'' @ [CHR 0x5C] @ ''.log'')
     = Parsed (One (Lit ''_'') # Star (ClassRange CHR ''0'' CHR ''9'') # dot_log)"
  by (simp add: parse_eval dot_log_def)

lemma pods_tail_matches:
  "match_here (One (Lit ''_'') # Star (ClassRange CHR ''0'' CHR ''9'') # dot_log) False ''_0.log''"
  by (simp add: dot_log_def)

section \<open>The filter predicate\<close>

lemma legacy_example_filter:
  assumes "Name pod = ''web-1''" "Namespace pod = ''default''"
  shows "filter_accepts (determineFilterFunc pod ''app'' True) f
     = Some (prefix ''/var/log/containers/web-1_default_app-'' f
         \<and> match_here (Plus AnyCharNotNL # dot_log) False
               (drop (length ''/var/log/containers/web-1_default_app-'') f))"
proof -
  define re where "re = CHR ''^'' # ''/var/log/containers/web-1_default_app-''
                @ (''.+'' @ [CHR 0x5C] @ ''.log'')"
  have d: "determineFilterFunc pod ''app'' True = Some (regexp_Match re)"
    using assms by (simp add: determineFilterFunc_def re_def)
  have m: "regexp_Match re f
     = Some (prefix ''/var/log/containers/web-1_default_app-'' f
         \<and> match_here (Plus AnyCharNotNL # dot_log) False
               (drop (length ''/var/log/containers/web-1_default_app-'') f))"
    unfolding re_def
    by (subst regexp_Match_anchored_ascii [OF _ _ parse_legacy_tail])
       (simp_all add: special_def ascii_def rep_op_def boundary_def del: match_here.simps)
  show ?thesis
    by (simp only: d m filter_accepts_def option.case)
qed

text \<open>
  Claim C5, as amended. With an empty container name \<^verbatim>\<open>determineFilterFunc\<close> returns
  nil, which the file watcher reads as a filter that accepts every file name. With the
  container name \<^verbatim>\<open>app\<close> in legacy mode, for a pod named \<^verbatim>\<open>web-1\<close> in namespace
  \<^verbatim>\<open>default\<close>, the predicate is a test of full paths: it accepts
  \<^verbatim>\<open>/var/log/containers/web-1_default_app-<id>.log\<close> for every non-empty id without a
  line feed, and it rejects \<^verbatim>\<open>/var/log/containers/web-1_default_sidecar-<id>.log\<close> for
  every id. The bare file names \<^verbatim>\<open>web-1_default_app-<id>.log\<close> and
  \<^verbatim>\<open>web-1_default_sidecar-<id>.log\<close> are both rejected.
\<close>

theorem determineFilterFunc_example:
  "determineFilterFunc pod [] legacy = None
   \<and> filter_accepts (determineFilterFunc pod [] legacy) fileName = Some True
   \<and> (Name pod = ''web-1'' \<and> Namespace pod = ''default'' \<longrightarrow>
        determineFilterFunc pod ''app'' True \<noteq> None
        \<and> (cid \<noteq> [] \<and> CHR 0x0A \<notin> set cid \<longrightarrow>
           filter_accepts (determineFilterFunc pod ''app'' True)
             (''/var/log/containers/web-1_default_app-'' @ cid @ ''.log'') = Some True)
        \<and> filter_accepts (determineFilterFunc pod ''app'' True)
             (''/var/log/containers/web-1_default_sidecar-'' @ cid @ ''.log'') = Some False
        \<and> filter_accepts (determineFilterFunc pod ''app'' True)
             (''web-1_default_app-'' @ cid @ ''.log'') = Some False
        \<and> filter_accepts (determineFilterFunc pod ''app'' True)
             (''web-1_default_sidecar-'' @ cid @ ''.log'') = Some False)"
proof -
  have nil: "determineFilterFunc pod [] legacy = None"
    by (simp add: determineFilterFunc_def)
  have tail: "match_here dot_log False ''.log''"
    by (simp add: dot_log_def)
  have acc: "match_here (Plus AnyCharNotNL # dot_log) False (cid @ ''.log'')"
    if "cid \<noteq> []" "CHR 0x0A \<notin> set cid"
    using plus_any [OF that _ tail] by (simp add: ascii_def)
  have some: "determineFilterFunc pod ''app'' True \<noteq> None"
    by (simp add: determineFilterFunc_def)
  have named: "(cid \<noteq> [] \<and> CHR 0x0A \<notin> set cid \<longrightarrow>
           filter_accepts (determineFilterFunc pod ''app'' True)
             (''/var/log/containers/web-1_default_app-'' @ cid @ ''.log'') = Some True)
        \<and> filter_accepts (determineFilterFunc pod ''app'' True)
             (''/var/log/containers/web-1_default_sidecar-'' @ cid @ ''.log'') = Some False
        \<and> filter_accepts (determineFilterFunc pod ''app'' True)
             (''web-1_default_app-'' @ cid @ ''.log'') = Some False
        \<and> filter_accepts (determineFilterFunc pod ''app'' True)
             (''web-1_default_sidecar-'' @ cid @ ''.log'') = Some False"
    if "Name pod = ''web-1''" "Namespace pod = ''default''"
    unfolding legacy_example_filter [OF that] using acc
    by (simp del: match_here.simps)
  show ?thesis using nil some named by (simp add: filter_accepts_def)
qed

theorem determineFilterFunc_example_witness:
  "filter_accepts (determineFilterFunc example_pod [] True) ''anything'' = Some True
   \<and> filter_accepts (determineFilterFunc example_pod ''app'' True)
         ''/var/log/containers/web-1_default_app-0123abcd.log'' = Some True
   \<and> filter_accepts (determineFilterFunc example_pod ''app'' True)
         ''/var/log/containers/web-1_default_sidecar-0123abcd.log'' = Some False"
proof -
  have pod: "Name example_pod = ''web-1''" "Namespace example_pod = ''default''"
    by (simp_all add: example_pod_def)
  show ?thesis
    using determineFilterFunc_example [of example_pod True "''anything''" "''0123abcd''"] pod
    by auto
qed

text \<open>
  The claim as it was stated fails: the predicate rejects the file name
  \<^verbatim>\<open>web-1_default_app-0123abcd.log\<close>, because the pattern is anchored at
  \<^verbatim>\<open>^/var/log/containers/\<close>.
\<close>

theorem determineFilterFunc_bare_name_counterexample:
  "filter_accepts (determineFilterFunc example_pod ''app'' True)
     ''web-1_default_app-0123abcd.log'' = Some False"
  by (simp add: legacy_example_filter example_pod_def del: match_here.simps)

text \<open>
  The filter outside legacy mode, for a directory name without metacharacters. The
  container name is quoted, so it may hold any bytes: when it or the directory name
  is not UTF-8 the pattern does not compile and the filter rejects every path.
\<close>

lemma decode_pods:
  "decode (''/var/log/pods/'' @ dir @ ''/'' @ cn)
     = (case decode dir of
          None \<Rightarrow> None
        | Some rh \<Rightarrow> map_option (\<lambda>rc. (map (\<lambda>c. [c]) ''/var/log/pods/'' @ rh @ [''/'']) @ rc) (decode cn))"
proof -
  have e: "''/var/log/pods/'' @ dir @ ''/'' @ cn = ''/var/log/pods'' @ CHR ''/'' # (dir @ CHR ''/'' # cn)"
    by simp
  have a: "ascii CHR ''/''" by (simp add: ascii_def)
  have p: "decode ''/var/log/pods'' = Some (map (\<lambda>c. [c]) ''/var/log/pods'')"
    by (rule decode_ascii) (simp add: ascii_def)
  show ?thesis
    unfolding e decode_split [OF a] p
    by (simp add: option.map_comp comp_def split: option.splits)
qed

lemma pods_filter:
  assumes "dir = (case Annotations pod config_hash of Some hash \<Rightarrow> hash | None \<Rightarrow> UID pod)"
    "containerName \<noteq> []" "\<forall>c\<in>set dir. \<not> special c"
  shows "filter_accepts (determineFilterFunc pod containerName False) f
     = (case decode (''/var/log/pods/'' @ dir @ ''/'' @ containerName) of
          None \<Rightarrow> Some False
        | Some rs \<Rightarrow>
            Some (match_here
                    (lits rs @ One (Lit ''_'') # Star (ClassRange CHR ''0'' CHR ''9'') # dot_log)
                    True f))"
proof -
  define x where "x = ''/var/log/pods/'' @ dir @ ''/'' @ containerName"
  define re where "re = CHR ''^'' # QuoteMeta x @ (''_[0-9]*'' @ [CHR 0x5C] @ ''.log'')"
  have q: "QuoteMeta x = ''/var/log/pods/'' @ dir @ ''/'' @ QuoteMeta containerName"
    using assms(3) by (simp add: x_def QuoteMeta_append QuoteMeta_id special_def)
  have d: "determineFilterFunc pod containerName False = Some (regexp_Match re)"
    using assms(1,2) by (simp add: determineFilterFunc_def re_def q)
  have b: "boundary (''_[0-9]*'' @ [CHR 0x5C] @ ''.log'')"
    by (simp add: boundary_def ascii_def rep_op_def)
  have e: "filter_accepts (determineFilterFunc pod containerName False) f = regexp_Match re f"
    by (simp only: d filter_accepts_def option.case)
  show ?thesis
  proof (cases "decode x")
    case None
    then show ?thesis
      unfolding e re_def using regexp_Match_invalid [OF b None, of f] by (simp add: x_def)
  next
    case (Some rs)
    then show ?thesis
      unfolding e re_def using regexp_Match_anchored [OF b parse_pods_tail Some, of f]
      by (simp add: x_def del: match_here.simps)
  qed
qed

lemma prefix_dir_eq:
  "CHR ''/'' \<notin> set h \<Longrightarrow> CHR ''/'' \<notin> set u \<Longrightarrow> prefix (h @ CHR ''/'' # x) (u @ CHR ''/'' # n) \<Longrightarrow> h = u"
proof (induction h arbitrary: u)
  case Nil
  then show ?case by (cases u) auto
next
  case (Cons a h)
  then show ?case by (cases u) auto
qed

lemma pods_filter_rejects:
  assumes "dir = (case Annotations pod config_hash of Some hash \<Rightarrow> hash | None \<Rightarrow> UID pod)"
    "containerName \<noteq> []" "\<forall>c\<in>set dir. \<not> special c" "\<not> sublist replacement dir"
    "\<not> prefix (''/var/log/pods/'' @ dir @ ''/'') f"
  shows "filter_accepts (determineFilterFunc pod containerName False) f = Some False"
proof (cases "decode (''/var/log/pods/'' @ dir @ ''/'' @ containerName)")
  case None
  then show ?thesis using pods_filter [OF assms(1-3), of f] by simp
next
  case (Some rs)
  from Some [unfolded decode_pods]
  obtain rh rc where r: "decode dir = Some rh" "decode containerName = Some rc"
      "rs = (map (\<lambda>c. [c]) ''/var/log/pods/'' @ rh @ [''/'']) @ rc"
    by (auto split: option.splits)
  let ?pre = "map (\<lambda>c. [c]) ''/var/log/pods/'' @ rh @ [''/'']"
  let ?R = "lits rc @ One (Lit ''_'') # Star (ClassRange CHR ''0'' CHR ''9'') # dot_log"
  have rh: "concat rh = dir" "[] \<notin> set rh" "replacement \<notin> set rh"
    using decode_concat [OF r(1)] decode_sublist [OF r(1)] assms(4) by auto
  have pre: "[] \<notin> set ?pre" "replacement \<notin> set ?pre"
    using rh(2,3) by (auto simp: replacement_def)
  have c: "concat ?pre = ''/var/log/pods/'' @ dir @ ''/''"
    using rh(1) by simp
  have "match_here (lits ?pre @ ?R) True f
      = (prefix (concat ?pre) f \<and> match_here ?R (True \<and> ?pre = []) (drop (length (concat ?pre)) f))"
    using pre by (rule match_here_lits)
  then have "\<not> match_here (lits ?pre @ ?R) True f"
    unfolding c using assms(5) by blast
  moreover have "lits rs @ One (Lit ''_'') # Star (ClassRange CHR ''0'' CHR ''9'') # dot_log
      = lits ?pre @ ?R"
    unfolding r(3) by (simp add: lits_def)
  ultimately show ?thesis
    using pods_filter [OF assms(1-3), of f] Some by (simp only: option.case)
qed

lemma pods_filter_accepts:
  assumes "dir = (case Annotations pod config_hash of Some hash \<Rightarrow> hash | None \<Rightarrow> UID pod)"
    "containerName \<noteq> []" "\<forall>c\<in>set dir. \<not> special c"
    "decode dir \<noteq> None" "decode containerName \<noteq> None"
  shows "filter_accepts (determineFilterFunc pod containerName False)
           (''/var/log/pods/'' @ dir @ ''/'' @ containerName @ ''_0.log'') = Some True"
proof -
  let ?x = "''/var/log/pods/'' @ dir @ ''/'' @ containerName"
  let ?R = "One (Lit ''_'') # Star (ClassRange CHR ''0'' CHR ''9'') # dot_log"
  have "decode ?x \<noteq> None"
    unfolding decode_pods using assms(4,5) by (auto split: option.splits)
  then obtain rs where rs: "decode ?x = Some rs" by blast
  have c: "concat rs = ?x" "[] \<notin> set rs"
    using decode_concat [OF rs] by auto
  have ne: "rs \<noteq> []" using c(1) by auto
  have "match_here (lits rs @ ?R) True (?x @ ''_0.log'')"
  proof (rule match_here_lits_prefix [OF c(2)])
    show "prefix (concat rs) (?x @ ''_0.log'')" unfolding c(1) by simp
    show "match_here ?R (True \<and> rs = []) (drop (length (concat rs)) (?x @ ''_0.log''))"
      unfolding c(1) using pods_tail_matches ne by (simp del: match_here.simps)
  qed
  then show ?thesis
    using pods_filter [OF assms(1-3), of "?x @ ''_0.log''"] rs by simp
qed

text \<open>
  Claim C10, as amended. Outside legacy mode, for a pod with the config-hash annotation
  and a non-empty container name, where the hash has no regular-expression
  metacharacter (none of the bytes \<^verbatim>\<open>regexp.QuoteMeta\<close> escapes), no U+FFFD replacement
  character and no \<^verbatim>\<open>/\<close>, and the UID has no \<^verbatim>\<open>/\<close>: the filter is keyed by the hash
  whatever the filesystem holds (\<^verbatim>\<open>determineFilterFunc\<close> takes no filesystem): it
  rejects every path that does not begin with \<^verbatim>\<open>/var/log/pods/<hash>/\<close>, and it accepts
  \<^verbatim>\<open>/var/log/pods/<hash>/<container>_0.log\<close> when hash and container name are UTF-8. So
  when the probe of the hash directory fails and the probe of the UID directory
  succeeds, \<^verbatim>\<open>determineLogPattern\<close> returns \<^verbatim>\<open>/var/log/pods/<uid>/*\<close> and the filter
  rejects every path under \<^verbatim>\<open>/var/log/pods/<uid>/\<close>.
\<close>

theorem filter_keyed_by_hash:
  assumes "Annotations pod config_hash = Some hash"
    and "containerName \<noteq> []"
    and "\<forall>c\<in>set hash. \<not> special c \<and> c \<noteq> CHR ''/''"
    and "\<not> sublist replacement hash"
    and "\<forall>c\<in>set (UID pod). c \<noteq> CHR ''/''"
  shows "determineFilterFunc pod containerName False \<noteq> None
    \<and> (\<forall>f. \<not> prefix (''/var/log/pods/'' @ hash @ ''/'') f \<longrightarrow>
           filter_accepts (determineFilterFunc pod containerName False) f = Some False)
    \<and> (decode hash \<noteq> None \<and> decode containerName \<noteq> None \<longrightarrow>
         filter_accepts (determineFilterFunc pod containerName False)
           (''/var/log/pods/'' @ hash @ ''/'' @ containerName @ ''_0.log'') = Some True)
    \<and> (os_Stat (''/var/log/pods/'' @ hash) \<noteq> StatOk \<and> os_Stat (''/var/log/pods/'' @ UID pod) = StatOk
         \<longrightarrow> fst (determineLogPattern pod False os_Stat) = (''/var/log/pods/'' @ UID pod @ ''/*'', None)
           \<and> (\<forall>n. filter_accepts (determineFilterFunc pod containerName False)
                   (''/var/log/pods/'' @ UID pod @ ''/'' @ n) = Some False))"
proof -
  have dir: "hash = (case Annotations pod config_hash of Some hash \<Rightarrow> hash | None \<Rightarrow> UID pod)"
    using assms(1) by simp
  have sp: "\<forall>c\<in>set hash. \<not> special c" using assms(3) by blast
  have a: "filter_accepts (determineFilterFunc pod containerName False) f = Some False"
    if "\<not> prefix (''/var/log/pods/'' @ hash @ ''/'') f" for f
    using pods_filter_rejects [OF dir assms(2) sp assms(4) that] .
  have c: "filter_accepts (determineFilterFunc pod containerName False)
          (''/var/log/pods/'' @ hash @ ''/'' @ containerName @ ''_0.log'') = Some True"
    if "decode hash \<noteq> None" "decode containerName \<noteq> None"
    using pods_filter_accepts [OF dir assms(2) sp that] .
  have d: "fst (determineLogPattern pod False os_Stat) = (''/var/log/pods/'' @ UID pod @ ''/*'', None)
      \<and> (\<forall>n. filter_accepts (determineFilterFunc pod containerName False)
                   (''/var/log/pods/'' @ UID pod @ ''/'' @ n) = Some False)"
    if disk: "os_Stat (''/var/log/pods/'' @ hash) \<noteq> StatOk" "os_Stat (''/var/log/pods/'' @ UID pod) = StatOk"
  proof -
    have pat: "fst (determineLogPattern pod False os_Stat) = (''/var/log/pods/'' @ UID pod @ ''/*'', None)"
      using assms(1) disk by (simp add: determineLogPattern_def uidLogPattern_def Let_def)
    have ne: "hash \<noteq> UID pod" using disk by auto
    have "\<not> prefix (''/var/log/pods/'' @ hash @ ''/'') (''/var/log/pods/'' @ UID pod @ ''/'' @ n)" for n
      using prefix_dir_eq [of hash "UID pod" "[]" n] assms(3,5) ne by auto
    then show ?thesis using pat a by blast
  qed
  have some: "determineFilterFunc pod containerName False \<noteq> None"
    using assms(2) by (simp add: determineFilterFunc_def)
  show ?thesis using some a c d by blast
qed

theorem filter_keyed_by_hash_witness:
  "fst (determineLogPattern critical_pod False uid_disk) = (''/var/log/pods/u1/*'', None)
   \<and> filter_accepts (determineFilterFunc critical_pod ''etcd'' False)
         ''/var/log/pods/u1/etcd_0.log'' = Some False
   \<and> filter_accepts (determineFilterFunc critical_pod ''etcd'' False)
         ''/var/log/pods/abc123/etcd_0.log'' = Some True"
proof -
  have pod: "Annotations critical_pod config_hash = Some ''abc123''" "UID critical_pod = ''u1''"
    by (simp_all add: critical_pod_def)
  have disk: "uid_disk (''/var/log/pods/'' @ ''abc123'') \<noteq> StatOk"
      "uid_disk (''/var/log/pods/'' @ UID critical_pod) = StatOk"
    by (simp_all add: uid_disk_def pod)
  have hash: "\<forall>c\<in>set ''abc123''. \<not> special c \<and> c \<noteq> CHR ''/''" "\<not> sublist replacement ''abc123''"
    by (simp_all add: special_def replacement_def sublist_Cons_right)
  have utf8: "decode ''abc123'' \<noteq> None" "decode ''etcd'' \<noteq> None"
    using decode_ascii [of "''abc123''"] decode_ascii [of "''etcd''"]
    by (simp_all add: ascii_def del: decode.simps)
  have "filter_accepts (determineFilterFunc critical_pod ''etcd'' False)
          (''/var/log/pods/'' @ ''abc123'' @ ''/'' @ ''etcd'' @ ''_0.log'') = Some True
    \<and> fst (determineLogPattern critical_pod False uid_disk)
          = (''/var/log/pods/'' @ UID critical_pod @ ''/*'', None)
    \<and> filter_accepts (determineFilterFunc critical_pod ''etcd'' False)
          (''/var/log/pods/'' @ UID critical_pod @ ''/'' @ ''etcd_0.log'') = Some False"
    using filter_keyed_by_hash [OF pod(1) _ hash, of "''etcd''" uid_disk] disk utf8
    by (simp add: pod)
  then show ?thesis by (simp add: pod)
qed

text \<open>
  The claim as it was stated, for every pod, fails: the hash is put into the pattern
  unquoted. With the hash \<^verbatim>\<open>a.c\<close> and the UID \<^verbatim>\<open>abc\<close>, only the UID directory on disk,
  the resolved pattern is \<^verbatim>\<open>/var/log/pods/abc/*\<close> and the filter accepts
  \<^verbatim>\<open>/var/log/pods/abc/etcd_0.log\<close>.
\<close>

theorem filter_keyed_by_hash_counterexample:
  "fst (determineLogPattern metachar_pod False abc_disk) = (''/var/log/pods/abc/*'', None)
   \<and> filter_accepts (determineFilterFunc metachar_pod ''etcd'' False)
         ''/var/log/pods/abc/etcd_0.log'' = Some True"
proof -
  have p: "parse (''^/var/log/pods/a.c/etcd_[0-9]*'' @ [CHR 0x5C] @ ''.log'')
      = Parsed (BeginText # lits (map (\<lambda>c. [c]) ''/var/log/pods/'') @ [One (Lit ''a''), One AnyCharNotNL]
                @ lits (map (\<lambda>c. [c]) ''c/etcd_'') @ Star (ClassRange CHR ''0'' CHR ''9'') # dot_log)"
    by (simp add: parse_eval lits_def dot_log_def)
  have m: "match_here ([One (Lit ''a''), One AnyCharNotNL]
                @ lits (map (\<lambda>c. [c]) ''c/etcd_'') @ Star (ClassRange CHR ''0'' CHR ''9'') # dot_log) False
             ''abc/etcd_0.log''"
    by (simp add: lits_def dot_log_def rune_size.simps)
  have "regexp_Match (''^/var/log/pods/a.c/etcd_[0-9]*'' @ [CHR 0x5C] @ ''.log'')
          (''/var/log/pods/'' @ ''abc/etcd_0.log'') = Some True"
    unfolding regexp_Match_def p using m
    by (simp only: parsed.case search_BeginText match_here_bytes) simp
  then show ?thesis
    by (simp add: determineLogPattern_def uidLogPattern_def determineFilterFunc_def filter_accepts_def
        config_hash_def special_def metachar_pod_def abc_disk_def)
qed

text \<open>
  The condition on U+FFFD is needed too: the matcher decodes a byte that is not UTF-8
  to U+FFFD. With the hash U+FFFD and the UID of the one byte \<^verbatim>\<open>0xFF\<close>, the filter
  accepts a path under the UID directory.
\<close>

lemma replacement_hash_matches_invalid_byte:
  "filter_accepts (determineFilterFunc replacement_pod ''etcd'' False)
     (''/var/log/pods/'' @ UID replacement_pod @ ''/etcd_0.log'') = Some True"
proof -
  have p: "parse (''^/var/log/pods/'' @ replacement @ ''/etcd_[0-9]*'' @ [CHR 0x5C] @ ''.log'')
      = Parsed (BeginText # lits (map (\<lambda>c. [c]) ''/var/log/pods/'') @ [One (Lit replacement)]
                @ lits (map (\<lambda>c. [c]) ''/etcd_'') @ Star (ClassRange CHR ''0'' CHR ''9'') # dot_log)"
    by (simp add: parse_eval lits_def dot_log_def replacement_def rune_size.simps between_def)
  have m: "match_here ([One (Lit replacement)]
                @ lits (map (\<lambda>c. [c]) ''/etcd_'') @ Star (ClassRange CHR ''0'' CHR ''9'') # dot_log) False
             (CHR 0xFF # ''/etcd_0.log'')"
    by (simp add: lits_def dot_log_def replacement_def rune_size.simps ascii_def)
  have "regexp_Match (''^/var/log/pods/'' @ replacement @ ''/etcd_[0-9]*'' @ [CHR 0x5C] @ ''.log'')
          (''/var/log/pods/'' @ CHR 0xFF # ''/etcd_0.log'') = Some True"
    unfolding regexp_Match_def p using m
    by (simp only: parsed.case search_BeginText match_here_bytes) simp
  then show ?thesis
    by (simp add: determineFilterFunc_def filter_accepts_def config_hash_def special_def
        replacement_pod_def replacement_def)
qed

section \<open>The reconciliation loop, event by event\<close>

lemma determineLogPattern_effects:
  "e \<in> set (snd (determineLogPattern pod legacy os_Stat)) \<Longrightarrow> (\<exists>p. e = OsStat p) \<or> (\<exists>l m. e = Log l m)"
  by (auto simp: determineLogPattern_def uidLogPattern_def Let_def split: if_splits option.splits)

text \<open>
  Claim C8. On the UID of a deleted pod: when the registry has an entry for the UID, the
  watcher of that entry is told to stop and the entry is removed; when it has none, the
  state is unchanged and nothing is done, no watcher is stopped and there is no error
  outcome. Either way the entries of the other UIDs and the watcher objects are as
  before.
\<close>

theorem podDeleted_stops_and_removes:
  "(watcherMap st uid = Some watcher \<longrightarrow>
      handle pt nf st (PodDeleted uid)
        = (st\<lparr>watcherMap := (watcherMap st)(uid := None)\<rparr>,
           [Log InfoLevel ''pod deleted, stopping watcher'', WatcherStop watcher]))
   \<and> (watcherMap st uid = None \<longrightarrow> handle pt nf st (PodDeleted uid) = (st, []))
   \<and> (\<forall>other. other \<noteq> uid \<longrightarrow>
         watcherMap (fst (handle pt nf st (PodDeleted uid))) other = watcherMap st other)
   \<and> heap (fst (handle pt nf st (PodDeleted uid))) = heap st"
  by (auto simp: podDeleted_def split: option.splits)

theorem podDeleted_stops_and_removes_witness:
  "handle example_tailer factory_ok
      \<lparr>watcherMap = [''u1'' \<mapsto> 0], heap = [\<lparr>pattern = ''/var/log/pods/u1/*'', filterFunc = None, podUID = ''u1''\<rparr>]\<rparr>
      (PodDeleted ''u1'')
     = (\<lparr>watcherMap = Map.empty, heap = [\<lparr>pattern = ''/var/log/pods/u1/*'', filterFunc = None, podUID = ''u1''\<rparr>]\<rparr>,
        [Log InfoLevel ''pod deleted, stopping watcher'', WatcherStop 0])
   \<and> handle example_tailer factory_ok
      \<lparr>watcherMap = [''u1'' \<mapsto> 0], heap = [\<lparr>pattern = ''/var/log/pods/u1/*'', filterFunc = None, podUID = ''u1''\<rparr>]\<rparr>
      (PodDeleted ''u2'')
     = (\<lparr>watcherMap = [''u1'' \<mapsto> 0], heap = [\<lparr>pattern = ''/var/log/pods/u1/*'', filterFunc = None, podUID = ''u1''\<rparr>]\<rparr>, [])"
  using podDeleted_stops_and_removes
    [of "\<lparr>watcherMap = [''u1'' \<mapsto> 0], heap = [\<lparr>pattern = ''/var/log/pods/u1/*'', filterFunc = None, podUID = ''u1''\<rparr>]\<rparr>"
        "''u1''" 0 example_tailer factory_ok]
    podDeleted_stops_and_removes
    [of "\<lparr>watcherMap = [''u1'' \<mapsto> 0], heap = [\<lparr>pattern = ''/var/log/pods/u1/*'', filterFunc = None, podUID = ''u1''\<rparr>]\<rparr>"
        "''u2''" 0 example_tailer factory_ok]
  by simp

text \<open>
  Claim C9. When \<^verbatim>\<open>NewLineHandlerFactoryFromConfig\<close> returns an error for a pod, the
  error is logged, the state of the loop is unchanged (no watcher is constructed,
  started or registered), and the loop goes on with the events that follow, from that
  unchanged state.
\<close>

theorem podAdded_factory_error_skips:
  assumes "nf (config pt) (UID pod) = Some e"
  shows "\<exists>effs. podAdded pt nf st pod os_Stat = (st, effs)
      \<and> Log ErrorLevel ''Error setting up watcher'' \<in> set effs
      \<and> (\<forall>w p. WatcherStart w \<notin> set effs \<and> NewPathWatcher w p \<notin> set effs)
      \<and> run_loop pt nf st (PodAdded pod os_Stat # evs)
          = (fst (run_loop pt nf st evs), effs @ snd (run_loop pt nf st evs))"
proof -
  obtain r probes where d: "determineLogPattern pod (legacyLogPaths pt) os_Stat = (r, probes)"
    by (cases "determineLogPattern pod (legacyLogPaths pt) os_Stat")
  obtain pat err where r: "r = (pat, err)" by (cases r)
  define effs where "effs = probes @ (if err \<noteq> None then [Log WarnLevel ''Error finding log path''] else [])
      @ [NewLineHandlerFactory (UID pod), Log ErrorLevel ''Error setting up watcher'',
         Log ErrorLevel ''Error setting up watcher'']"
  have p: "podAdded pt nf st pod os_Stat = (st, effs)"
    using assms d r by (simp add: podAdded_def watcherForPod_def effs_def)
  have "\<forall>e \<in> set probes. (\<exists>p. e = OsStat p) \<or> (\<exists>l m. e = Log l m)"
    using determineLogPattern_effects [of _ pod "legacyLogPaths pt" os_Stat] d by simp
  then have n: "\<forall>w p. WatcherStart w \<notin> set effs \<and> NewPathWatcher w p \<notin> set effs"
    by (auto simp: effs_def)
  have "run_loop pt nf st (PodAdded pod os_Stat # evs)
          = (fst (run_loop pt nf st evs), effs @ snd (run_loop pt nf st evs))"
    using p by (simp add: split_beta)
  then show ?thesis using p n by (auto simp: effs_def)
qed

theorem podAdded_factory_error_skips_witness:
  "podAdded example_tailer factory_fails no_watchers example_pod uid_disk
     = (no_watchers,
        [OsStat ''/var/log/pods/u1'', NewLineHandlerFactory ''u1'',
         Log ErrorLevel ''Error setting up watcher'', Log ErrorLevel ''Error setting up watcher''])
   \<and> run_loop example_tailer factory_fails no_watchers [PodAdded example_pod uid_disk, PodDeleted ''u1'']
     = (no_watchers,
        [OsStat ''/var/log/pods/u1'', NewLineHandlerFactory ''u1'',
         Log ErrorLevel ''Error setting up watcher'', Log ErrorLevel ''Error setting up watcher''])"
  using podAdded_factory_error_skips
    [of factory_fails example_tailer example_pod "FactoryError ''unknown parser''" no_watchers uid_disk
        "[PodDeleted ''u1'']"]
  by (simp add: example_defs loop_defs)

text \<open>
  Claim C1 says that a pod whose log path cannot be resolved is skipped. The code does
  otherwise: \<^verbatim>\<open>watcherForPod\<close> logs the warning and does not return (its own comment asks
  whether it should), so with a working handler factory a watcher with the empty
  pattern is constructed, started and registered. Here the pod \<^verbatim>\<open>u1\<close> has no
  annotation and nothing exists on disk.
\<close>

theorem podAdded_unresolved_path_registers:
  "fst (determineLogPattern example_pod False empty_disk) = ([], Some (PathNotFound ''u1''))
   \<and> podAdded example_tailer factory_ok no_watchers example_pod empty_disk
     = (\<lparr>watcherMap = [''u1'' \<mapsto> 0],
         heap = [\<lparr>pattern = [], filterFunc = None, podUID = ''u1''\<rparr>]\<rparr>,
        [OsStat ''/var/log/pods/u1'', Log WarnLevel ''Error finding log path'',
         NewLineHandlerFactory ''u1'', Log InfoLevel ''Setting up watcher for pod'',
         NewPathWatcher 0 [], Log InfoLevel ''starting watcher for pod'', WatcherStart 0])"
  by (simp add: example_defs loop_defs)

text \<open>
  Claim C2 says that a registry entry exists exactly for the watchers started and not
  yet stopped. The code breaks this on a second added event for a registered UID:
  watcher 1 replaces watcher 0 in the registry, and watcher 0, started and never told
  to stop, has no entry any more. After the pod is deleted the registry is empty and
  watcher 0 is still running.
\<close>

theorem podAdded_twice_leaks_watcher:
  "run_loop example_tailer factory_ok no_watchers
      [PodAdded example_pod uid_disk, PodAdded example_pod uid_disk]
     = (\<lparr>watcherMap = [''u1'' \<mapsto> 1],
         heap = [\<lparr>pattern = ''/var/log/pods/u1/*'', filterFunc = None, podUID = ''u1''\<rparr>,
                 \<lparr>pattern = ''/var/log/pods/u1/*'', filterFunc = None, podUID = ''u1''\<rparr>]\<rparr>,
        [OsStat ''/var/log/pods/u1'', NewLineHandlerFactory ''u1'',
         Log InfoLevel ''Setting up watcher for pod'', NewPathWatcher 0 ''/var/log/pods/u1/*'',
         Log InfoLevel ''starting watcher for pod'', WatcherStart 0,
         OsStat ''/var/log/pods/u1'', NewLineHandlerFactory ''u1'',
         Log InfoLevel ''Setting up watcher for pod'', NewPathWatcher 1 ''/var/log/pods/u1/*'',
         Log InfoLevel ''starting watcher for pod'', WatcherStart 1])
   \<and> watcherMap (fst (run_loop example_tailer factory_ok no_watchers
        [PodAdded example_pod uid_disk, PodAdded example_pod uid_disk, PodDeleted ''u1''])) = Map.empty
   \<and> filter (\<lambda>e. e = WatcherStart 0 \<or> e = WatcherStop 0)
        (snd (run_loop example_tailer factory_ok no_watchers
           [PodAdded example_pod uid_disk, PodAdded example_pod uid_disk, PodDeleted ''u1'']))
       = [WatcherStart 0]"
  by (simp add: example_defs loop_defs)

text \<open>
  What does hold for every sequence of events: a registered watcher has been started
  and not stopped, and it is registered under one UID only.
\<close>

lemma podAdded_cases:
  "(podAdded pt nf st pod os_Stat = (st, effs) \<and> (\<forall>w. WatcherStart w \<notin> set effs \<and> WatcherStop w \<notin> set effs))
   \<or> (\<exists>pat flt. podAdded pt nf st pod os_Stat
          = (\<lparr>watcherMap = (watcherMap st)(UID pod \<mapsto> length (heap st)),
              heap = heap st @ [\<lparr>pattern = pat, filterFunc = flt, podUID = UID pod\<rparr>]\<rparr>, effs)
        \<and> (\<forall>w. WatcherStart w \<in> set effs \<longleftrightarrow> w = length (heap st))
        \<and> (\<forall>w. WatcherStop w \<notin> set effs))"
  if "podAdded pt nf st pod os_Stat = (st', effs)"
proof -
  obtain pat err probes where d: "determineLogPattern pod (legacyLogPaths pt) os_Stat = ((pat, err), probes)"
    by (metis surj_pair)
  have pr: "\<forall>e \<in> set probes. (\<exists>p. e = OsStat p) \<or> (\<exists>l m. e = Log l m)"
    using determineLogPattern_effects [of _ pod "legacyLogPaths pt" os_Stat] d by simp
  show ?thesis
  proof (cases "nf (config pt) (UID pod)")
    case (Some e)
    then show ?thesis using that d pr
      by (auto simp: podAdded_def watcherForPod_def)
  next
    case None
    then show ?thesis using that d pr
      by (cases st) (auto simp: podAdded_def watcherForPod_def)
  qed
qed

lemma handle_registry_ok:
  assumes "registry_ok st effs" "handle pt nf st ev = (st', new)"
  shows "registry_ok st' (effs @ new)"
proof (cases ev)
  case (PodAdded pod os_Stat)
  then have p: "podAdded pt nf st pod os_Stat = (st', new)" using assms(2) by simp
  from podAdded_cases [OF p] show ?thesis
  proof (elim disjE exE conjE)
    assume "podAdded pt nf st pod os_Stat = (st, new)"
      "\<forall>w. WatcherStart w \<notin> set new \<and> WatcherStop w \<notin> set new"
    then show ?thesis using assms(1) p by (auto simp: registry_ok_def)
  next
    fix pat flt
    assume a: "podAdded pt nf st pod os_Stat
          = (\<lparr>watcherMap = (watcherMap st)(UID pod \<mapsto> length (heap st)),
              heap = heap st @ [\<lparr>pattern = pat, filterFunc = flt, podUID = UID pod\<rparr>]\<rparr>, new)"
      "\<forall>w. WatcherStart w \<in> set new \<longleftrightarrow> w = length (heap st)"
      "\<forall>w. WatcherStop w \<notin> set new"
    then have st': "st' = \<lparr>watcherMap = (watcherMap st)(UID pod \<mapsto> length (heap st)),
              heap = heap st @ [\<lparr>pattern = pat, filterFunc = flt, podUID = UID pod\<rparr>]\<rparr>"
      using p by simp
    show ?thesis
      unfolding registry_ok_def st' using assms(1) a(2,3)
      by (auto simp: registry_ok_def less_Suc_eq split: if_splits)
  qed
next
  case (PodDeleted uid)
  then show ?thesis using assms
    by (auto simp: registry_ok_def podDeleted_def split: option.splits if_splits)
qed

lemma run_loop_registry_ok:
  "registry_ok st effs \<Longrightarrow> run_loop pt nf st evs = (st', new) \<Longrightarrow> registry_ok st' (effs @ new)"
proof (induction evs arbitrary: st effs new st')
  case Nil
  then show ?case by simp
next
  case (Cons ev evs)
  obtain st1 e1 where h: "handle pt nf st ev = (st1, e1)" by (metis surj_pair)
  obtain st2 e2 where r: "run_loop pt nf st1 evs = (st2, e2)" by (metis surj_pair)
  have "registry_ok st1 (effs @ e1)" using handle_registry_ok [OF Cons.prems(1) h] .
  then have "registry_ok st2 ((effs @ e1) @ e2)" using Cons.IH r by blast
  then show ?case using Cons.prems(2) h r by simp
qed

lemma registered_watchers_running:
  assumes "run_loop pt nf no_watchers evs = (st, effs)" "watcherMap st uid = Some w"
  shows "WatcherStart w \<in> set effs \<and> WatcherStop w \<notin> set effs
     \<and> (\<forall>other. watcherMap st other = Some w \<longrightarrow> other = uid)"
proof -
  have "registry_ok no_watchers []" by (simp add: registry_ok_def no_watchers_def)
  then have "registry_ok st effs" using run_loop_registry_ok [OF _ assms(1)] by force
  then show ?thesis using assms(2) unfolding registry_ok_def by blast
qed

section \<open>Shutdown\<close>













end
